theory Spec2Isabelle
  imports Complex_Main "HOL-Library.AList"
begin

section \<open>Conventions of the embedding\<close>

text \<open>
  The development embeds the authoritative server (\<^verbatim>\<open>server.py\<close>) and the snapshot
  buffer and interpolator of the client (\<^verbatim>\<open>client.py\<close>).

  \<^item> Python \<^verbatim>\<open>float\<close> values are idealised as \<^typ>\<open>real\<close>: rounding, overflow and
    NaN are not part of the model.
  \<^item> A Python \<^verbatim>\<open>dict\<close> is an association list in insertion order. Assignment
    \<^verbatim>\<open>d[k] = v\<close> is \<^const>\<open>AList.update\<close>: it replaces the value of an existing key in
    place and appends a new key at the end.
  \<^item> Random draws and the wall clock are parameters of the operation that reads them.
  \<^item> A raised exception is a value \<open>Inl e\<close> of the result.
\<close>

datatype py_error = ZeroDivisionError | KeyError

definition py_div :: "real \<Rightarrow> real \<Rightarrow> py_error + real" where
  "py_div a b = (if b = 0 then Inl ZeroDivisionError else Inr (a / b))"

text \<open>\<^verbatim>\<open>del d[k]\<close>: raises \<^verbatim>\<open>KeyError\<close> when the key is absent.\<close>

definition py_del :: "'k \<Rightarrow> ('k \<times> 'v) list \<Rightarrow> py_error + ('k \<times> 'v) list" where
  "py_del k d = (if k \<in> fst ` set d then Inr (AList.delete k d) else Inl KeyError)"

text \<open>The decimal rendering of a natural number, as an f-string formats it.\<close>

function str_nat :: "nat \<Rightarrow> string" where
  "str_nat n =
     (if n < 10 then [''0123456789'' ! n]
      else str_nat (n div 10) @ [''0123456789'' ! (n mod 10)])"
  by pat_completeness auto
termination
  by (relation "measure id") auto

declare str_nat.simps [simp del]

section \<open>Configuration\<close>

definition GAME_WIDTH :: real where "GAME_WIDTH = 500"
definition GAME_HEIGHT :: real where "GAME_HEIGHT = 375"
definition PLAYER_RADIUS :: real where "PLAYER_RADIUS = 25"
definition COIN_RADIUS :: real where "COIN_RADIUS = 15"
definition COIN_SPAWN_INTERVAL :: real where "COIN_SPAWN_INTERVAL = 5"
definition SIMULATION_LATENCY :: real where "SIMULATION_LATENCY = 2 / 10"
definition PLAYER_SPEED :: real where "PLAYER_SPEED = 300"
definition TICK_RATE :: real where "TICK_RATE = 120"
definition TICK_DELTA :: real where "TICK_DELTA = 1 / TICK_RATE"

section \<open>Data classes\<close>

record Player =
  p_id :: string
  p_x :: real
  p_y :: real
  p_color :: "int \<times> int \<times> int"
  p_score :: int
  p_input_x :: real
  p_input_y :: real

record Coin =
  c_id :: string
  c_x :: real
  c_y :: real

type_synonym websocket = nat

record GameServer =
  players :: "(string \<times> Player) list"
  coins :: "(string \<times> Coin) list"
  connected_clients :: "websocket set"
  player_id_map :: "websocket \<rightharpoonup> string"
  last_coin_spawn :: real
  coin_counter :: nat
  game_started :: bool
  start_time :: "real option"
  stop_event :: bool

text \<open>The constructor; \<open>now\<close> is the clock reading taken for \<^verbatim>\<open>last_coin_spawn\<close>.\<close>

definition init_server :: "real \<Rightarrow> GameServer" where
  "init_server now =
     \<lparr>players = [], coins = [], connected_clients = {}, player_id_map = Map.empty,
      last_coin_spawn = now, coin_counter = 0, game_started = False,
      start_time = None, stop_event = False\<rparr>"

section \<open>The simulation tick\<close>

text \<open>\<^verbatim>\<open>spawn_coin\<close>; \<open>r\<close> holds the two \<^verbatim>\<open>random.randint\<close> draws.\<close>

definition spawn_coin :: "int \<times> int \<Rightarrow> GameServer \<Rightarrow> GameServer" where
  "spawn_coin r s =
     (let coin_id = ''coin_'' @ str_nat (coin_counter s) in
      s\<lparr>coin_counter := coin_counter s + 1,
        coins := AList.update coin_id
                   \<lparr>c_id = coin_id, c_x = of_int (fst r), c_y = of_int (snd r)\<rparr> (coins s)\<rparr>)"

text \<open>Lines 90 to 95: the velocity of a player with the given input direction.\<close>

definition velocity :: "real \<Rightarrow> real \<Rightarrow> py_error + real \<times> real" where
  "velocity ix iy =
     (let mag = sqrt (ix\<^sup>2 + iy\<^sup>2) in
      if mag > 0 then
        (case py_div ix mag of
           Inl e \<Rightarrow> Inl e
         | Inr qx \<Rightarrow>
             (case py_div iy mag of
                Inl e \<Rightarrow> Inl e
              | Inr qy \<Rightarrow> Inr (qx * PLAYER_SPEED, qy * PLAYER_SPEED)))
      else Inr (0, 0))"

text \<open>Lines 90 to 101: the body of the movement loop, for one player.\<close>

definition integrate_player :: "Player \<Rightarrow> py_error + Player" where
  "integrate_player p =
     (case velocity (p_input_x p) (p_input_y p) of
        Inl e \<Rightarrow> Inl e
      | Inr (vx, vy) \<Rightarrow>
          (let new_x = p_x p + vx * TICK_DELTA;
               new_y = p_y p + vy * TICK_DELTA
           in Inr (p\<lparr>p_x := max PLAYER_RADIUS (min (GAME_WIDTH - PLAYER_RADIUS) new_x),
                     p_y := max PLAYER_RADIUS (min (GAME_HEIGHT - PLAYER_RADIUS) new_y)\<rparr>)))"

fun move_players :: "(string \<times> Player) list \<Rightarrow> py_error + (string \<times> Player) list" where
  "move_players [] = Inr []"
| "move_players ((k, p) # ps) =
     (case integrate_player p of
        Inl e \<Rightarrow> Inl e
      | Inr p' \<Rightarrow>
          (case move_players ps of
             Inl e \<Rightarrow> Inl e
           | Inr ps' \<Rightarrow> Inr ((k, p') # ps')))"

text \<open>Line 106 and 107: the collision test of a coin and a player.\<close>

definition touches :: "Coin \<Rightarrow> Player \<Rightarrow> bool" where
  "touches c p \<longleftrightarrow>
     sqrt ((c_x c - p_x p)\<^sup>2 + (c_y c - p_y p)\<^sup>2) < PLAYER_RADIUS + COIN_RADIUS"

text \<open>
  Lines 105 to 110, the inner loop with its \<^verbatim>\<open>break\<close>: the players are visited in
  dictionary order; the result is \<open>None\<close> when the loop ends without a hit.
\<close>

fun claim_coin :: "Coin \<Rightarrow> (string \<times> Player) list \<Rightarrow> (string \<times> Player) list option" where
  "claim_coin c [] = None"
| "claim_coin c ((k, p) # ps) =
     (if touches c p then Some ((k, p\<lparr>p_score := p_score p + 1\<rparr>) # ps)
      else (case claim_coin c ps of
              None \<Rightarrow> None
            | Some ps' \<Rightarrow> Some ((k, p) # ps')))"

text \<open>Lines 103 to 110, the outer loop; the third argument is \<^verbatim>\<open>coins_to_remove\<close>.\<close>

fun scan_coins ::
  "(string \<times> Coin) list \<Rightarrow> (string \<times> Player) list \<Rightarrow> string list
     \<Rightarrow> (string \<times> Player) list \<times> string list" where
  "scan_coins [] ps rem = (ps, rem)"
| "scan_coins ((coin_id, c) # cs) ps rem =
     (case claim_coin c ps of
        Some ps' \<Rightarrow> scan_coins cs ps' (rem @ [coin_id])
      | None \<Rightarrow> scan_coins cs ps rem)"

text \<open>Lines 112 and 113.\<close>

fun remove_coins :: "string list \<Rightarrow> (string \<times> Coin) list \<Rightarrow> py_error + (string \<times> Coin) list" where
  "remove_coins [] d = Inr d"
| "remove_coins (coin_id # ids) d =
     (case py_del coin_id d of
        Inl e \<Rightarrow> Inl e
      | Inr d' \<Rightarrow> remove_coins ids d')"

text \<open>
  Lines 85 to 87: the spawn timer. \<open>current_time\<close> is the clock reading and \<open>r\<close> the
  random draws that \<^verbatim>\<open>spawn_coin\<close> consumes when the timer has expired.
\<close>

definition spawn_if_due :: "real \<Rightarrow> int \<times> int \<Rightarrow> GameServer \<Rightarrow> GameServer" where
  "spawn_if_due current_time r s =
     (if current_time - last_coin_spawn s > COIN_SPAWN_INTERVAL
      then (spawn_coin r s)\<lparr>last_coin_spawn := current_time\<rparr> else s)"

text \<open>\<^verbatim>\<open>update_game_state\<close>: spawn, movement, collision scan, removal.\<close>

definition update_game_state :: "real \<Rightarrow> int \<times> int \<Rightarrow> GameServer \<Rightarrow> py_error + GameServer" where
  "update_game_state current_time r s =
     (let s1 = spawn_if_due current_time r s
      in case move_players (players s1) of
           Inl e \<Rightarrow> Inl e
         | Inr ps \<Rightarrow>
             (case scan_coins (coins s1) ps [] of
                (ps', coins_to_remove) \<Rightarrow>
                  (case remove_coins coins_to_remove (coins s1) of
                     Inl e \<Rightarrow> Inl e
                   | Inr cs \<Rightarrow> Inr (s1\<lparr>players := ps', coins := cs\<rparr>))))"

section \<open>Wire messages\<close>

text \<open>
  The public view of a player (\<^verbatim>\<open>Player.to_dict\<close>) and of a coin, and the
  \<^verbatim>\<open>state_update\<close> message. The client reads the colour with
  \<^verbatim>\<open>.get('color', ...)\<close>, so the colour is the one optional key.
\<close>

record PlayerView =
  v_id :: string
  v_x :: real
  v_y :: real
  v_score :: int
  v_color :: "(int \<times> int \<times> int) option"

record CoinView =
  cv_id :: string
  cv_x :: real
  cv_y :: real

record Snapshot =
  timestamp :: real
  sn_players :: "PlayerView list"
  sn_coins :: "CoinView list"

datatype server_msg =
    Init string real real real real
  | GameStart
  | StateUpdate Snapshot
  | Unrecognized

text \<open>An \<^verbatim>\<open>input\<close> message; each component is read with \<^verbatim>\<open>.get(..., 0)\<close>.\<close>

datatype client_msg =
    Input "real option" "real option"
  | Other

text \<open>What a handler sends: to one connection, or to a set of them at once.\<close>

datatype effect =
    Send websocket server_msg
  | SendAll "websocket set" server_msg

definition player_to_dict :: "Player \<Rightarrow> PlayerView" where
  "player_to_dict p =
     \<lparr>v_id = p_id p, v_x = p_x p, v_y = p_y p, v_score = p_score p, v_color = Some (p_color p)\<rparr>"

definition coin_to_dict :: "Coin \<Rightarrow> CoinView" where
  "coin_to_dict c = \<lparr>cv_id = c_id c, cv_x = c_x c, cv_y = c_y c\<rparr>"

section \<open>Broadcast, connections and the tick loop\<close>

text \<open>
  \<^verbatim>\<open>broadcast_state\<close>: the snapshot it builds and hands to every connected client;
  \<open>now\<close> is the clock reading for the timestamp.
\<close>

definition broadcast_state :: "real \<Rightarrow> GameServer \<Rightarrow> effect list" where
  "broadcast_state now s =
     (if \<not> game_started s then []
      else
        (let state = \<lparr>timestamp = now,
                       sn_players = map (player_to_dict \<circ> snd) (players s),
                       sn_coins = map (coin_to_dict \<circ> snd) (coins s)\<rparr>
         in if connected_clients s \<noteq> {}
            then [SendAll (connected_clients s) (StateUpdate state)] else []))"

text \<open>
  \<^verbatim>\<open>handle_client\<close>, lines 142 to 179: what runs when a connection is accepted.
  \<open>pos\<close> and \<open>col\<close> are the random position and colour, \<open>now\<close> the clock reading for
  \<^verbatim>\<open>start_time\<close>, and \<open>rc i\<close> the draws of the \<open>i\<close>-th coin of the initial batch.
\<close>

definition handle_client_connect ::
  "websocket \<Rightarrow> real \<times> real \<Rightarrow> int \<times> int \<times> int \<Rightarrow> real \<Rightarrow> (nat \<Rightarrow> int \<times> int)
     \<Rightarrow> GameServer \<Rightarrow> GameServer \<times> effect list" where
  "handle_client_connect ws pos col now rc s =
     (let player_id = ''player_'' @ str_nat (length (players s));
          player = \<lparr>p_id = player_id, p_x = fst pos, p_y = snd pos, p_color = col,
                    p_score = 0, p_input_x = 0, p_input_y = 0\<rparr>;
          s1 = s\<lparr>players := AList.update player_id player (players s),
                 connected_clients := insert ws (connected_clients s),
                 player_id_map := (player_id_map s)(ws \<mapsto> player_id)\<rparr>;
          init_msg = Init player_id GAME_WIDTH GAME_HEIGHT PLAYER_RADIUS COIN_RADIUS
      in if length (players s1) = 2 \<and> \<not> game_started s1 then
           (let s2 = fold (\<lambda>i. spawn_coin (rc i)) [0..<5]
                       (s1\<lparr>game_started := True, start_time := Some now\<rparr>)
            in (s2, [Send ws init_msg, SendAll (connected_clients s2) GameStart]))
         else if game_started s1 then (s1, [Send ws init_msg, Send ws GameStart])
         else (s1, [Send ws init_msg]))"

text \<open>
  \<^verbatim>\<open>handle_client\<close>, lines 187 to 196: the \<^verbatim>\<open>finally\<close> block of the handler whose
  local variable \<^verbatim>\<open>player_id\<close> has the given value.
\<close>

definition handle_client_disconnect ::
  "websocket \<Rightarrow> string \<Rightarrow> GameServer \<Rightarrow> py_error + GameServer" where
  "handle_client_disconnect ws player_id s =
     (let s1 = s\<lparr>connected_clients := connected_clients s - {ws}\<rparr>;
          s2 = (if player_id \<in> fst ` set (players s1)
                then s1\<lparr>players := AList.delete player_id (players s1)\<rparr> else s1)
      in if ws \<notin> dom (player_id_map s2) then Inl KeyError
         else
           (let s3 = s2\<lparr>player_id_map := (player_id_map s2)(ws := None)\<rparr>
            in Inr (if game_started s3 \<and> length (players s3) = 0
                    then s3\<lparr>stop_event := True\<rparr> else s3)))"

text \<open>
  \<^verbatim>\<open>process_delayed_message\<close>, after its sleep: the input is stored in the player
  of the sending connection, when that player is still in the store.
\<close>

definition process_delayed_message :: "websocket \<Rightarrow> client_msg \<Rightarrow> GameServer \<Rightarrow> GameServer" where
  "process_delayed_message ws data s =
     (case data of
        Input ix iy \<Rightarrow>
          (case player_id_map s ws of
             None \<Rightarrow> s
           | Some pid \<Rightarrow>
               if pid \<in> fst ` set (players s)
               then s\<lparr>players :=
                        AList.map_entry pid
                          (\<lambda>p. p\<lparr>p_input_x := (case ix of Some v \<Rightarrow> v | None \<Rightarrow> 0),
                                   p_input_y := (case iy of Some v \<Rightarrow> v | None \<Rightarrow> 0)\<rparr>)
                          (players s)\<rparr>
               else s)
      | Other \<Rightarrow> s)"

text \<open>
  One pass through the body of \<^verbatim>\<open>game_loop\<close>, entered when \<^verbatim>\<open>stop_event\<close> is not
  set: the new state and what is broadcast. \<open>now'\<close> is the clock reading of the broadcast.
\<close>

definition game_loop_body ::
  "real \<Rightarrow> int \<times> int \<Rightarrow> real \<Rightarrow> GameServer \<Rightarrow> py_error + GameServer \<times> effect list" where
  "game_loop_body now r now' s =
     (if game_started s then
        (case update_game_state now r s of
           Inl e \<Rightarrow> Inl e
         | Inr s' \<Rightarrow> Inr (s', broadcast_state now' s'))
      else Inr (s, []))"

subsection \<open>Histories of the server\<close>

text \<open>
  The server runs on one event loop, so a history is a sequence of atomic steps: a
  connection accepted, a connection closed, a delayed input applied, a pass through the
  tick loop. The handler of a connection keeps its \<^verbatim>\<open>player_id\<close> in a local variable;
  it is the value the handler stored in \<^verbatim>\<open>player_id_map\<close>, which nothing else writes.
\<close>

datatype event =
    Connect websocket "real \<times> real" "int \<times> int \<times> int" real "nat \<Rightarrow> int \<times> int"
  | Disconnect websocket
  | Message websocket client_msg
  | Tick real "int \<times> int" real

fun step :: "event \<Rightarrow> GameServer \<Rightarrow> py_error + GameServer" where
  "step (Connect ws pos col now rc) s = Inr (fst (handle_client_connect ws pos col now rc s))"
| "step (Disconnect ws) s =
     (case player_id_map s ws of
        None \<Rightarrow> Inl KeyError
      | Some player_id \<Rightarrow> handle_client_disconnect ws player_id s)"
| "step (Message ws data) s = Inr (process_delayed_message ws data s)"
| "step (Tick now r now') s =
     (if stop_event s then Inr s
      else (case game_loop_body now r now' s of
              Inl e \<Rightarrow> Inl e
            | Inr (s', out) \<Rightarrow> Inr s'))"

fun run :: "event list \<Rightarrow> GameServer \<Rightarrow> py_error + GameServer" where
  "run [] s = Inr s"
| "run (e # es) s = (case step e s of Inl err \<Rightarrow> Inl err | Inr s' \<Rightarrow> run es s')"

subsection \<open>Time spent in one pass of the tick loop\<close>

text \<open>
  The time for which a coroutine suspends its caller, in seconds, under the rules of
  \<^verbatim>\<open>asyncio\<close>: \<^verbatim>\<open>await asyncio.sleep(d)\<close> suspends for \<open>d\<close>; awaiting
  \<^verbatim>\<open>asyncio.gather\<close> suspends until the slowest of the gathered coroutines is done;
  awaits in sequence add up; \<^verbatim>\<open>asyncio.create_task\<close> does not suspend. Computation and
  the hand-over of a message to the transport are counted as taking no time, so each
  value is a lower bound of the real one.
\<close>

definition delayed_send_time :: "websocket \<Rightarrow> real" where
  "delayed_send_time client = SIMULATION_LATENCY + 0"

definition broadcast_state_time :: "GameServer \<Rightarrow> real" where
  "broadcast_state_time s =
     (if \<not> game_started s then 0
      else if connected_clients s \<noteq> {} then Max (delayed_send_time ` connected_clients s)
      else 0)"

definition game_loop_pass_time :: "GameServer \<Rightarrow> real" where
  "game_loop_pass_time s =
     (if game_started s then 0 + broadcast_state_time s else 0) + TICK_DELTA"

text \<open>Line 183: the handler schedules the input with \<^verbatim>\<open>create_task\<close> and goes on.\<close>

definition schedule_input_time :: real where
  "schedule_input_time = 0"

section \<open>The client: snapshot buffer and interpolation\<close>

record RenderState =
  rs_players :: "(string \<times> PlayerView) list"
  rs_coins :: "CoinView list"

record GameClient =
  player_id :: "string option"
  game_width :: real
  game_height :: real
  player_radius :: real
  coin_radius :: real
  client_game_started :: bool
  state_buffer :: "Snapshot list"
  current_display_state :: RenderState

definition INTERPOLATION_OFFSET :: real where "INTERPOLATION_OFFSET = 35 / 100"

definition init_client :: GameClient where
  "init_client =
     \<lparr>player_id = None, game_width = 500, game_height = 375, player_radius = 25,
      coin_radius = 20, client_game_started = False, state_buffer = [],
      current_display_state = \<lparr>rs_players = [], rs_coins = []\<rparr>\<rparr>"

text \<open>\<^verbatim>\<open>receive_messages\<close>, lines 47 to 69: the body of the loop, for one message.\<close>

definition on_message :: "server_msg \<Rightarrow> GameClient \<Rightarrow> GameClient" where
  "on_message data c =
     (case data of
        Init pid w h pr cr \<Rightarrow>
          c\<lparr>player_id := Some pid, game_width := w, game_height := h,
            player_radius := pr, coin_radius := cr\<rparr>
      | GameStart \<Rightarrow> c\<lparr>client_game_started := True\<rparr>
      | StateUpdate sn \<Rightarrow>
          (let buf = state_buffer c @ [sn]
           in c\<lparr>state_buffer := (if length buf > 40 then tl buf else buf)\<rparr>)
      | Unrecognized \<Rightarrow> c)"

definition receive_messages :: "server_msg list \<Rightarrow> GameClient \<Rightarrow> GameClient" where
  "receive_messages msgs c = fold on_message msgs c"

text \<open>The comprehension \<^verbatim>\<open>{p['id']: p for p in ...}\<close>.\<close>

definition players_dict :: "PlayerView list \<Rightarrow> (string \<times> PlayerView) list" where
  "players_dict ps = foldl (\<lambda>d p. AList.update (v_id p) p d) [] ps"

text \<open>
  Lines 91 to 96: the scan from the newest snapshot backward; \<open>find_prev rt buf n\<close>
  looks at the indices below \<open>n\<close> and returns the index of \<^verbatim>\<open>prev_state\<close>.
\<close>

fun find_prev :: "real \<Rightarrow> Snapshot list \<Rightarrow> nat \<Rightarrow> nat option" where
  "find_prev render_time buf 0 = None"
| "find_prev render_time buf (Suc i) =
     (if timestamp (buf ! i) \<le> render_time then Some i else find_prev render_time buf i)"

text \<open>Lines 111 to 129: the loop over the players of the later snapshot.\<close>

definition interpolate_players ::
  "real \<Rightarrow> (string \<times> PlayerView) list \<Rightarrow> (string \<times> PlayerView) list
     \<Rightarrow> (string \<times> PlayerView) list" where
  "interpolate_players alpha prev_players next_players =
     foldl (\<lambda>out (pid, next_p_data).
              AList.update pid
                (case map_of prev_players pid of
                   Some prev_p_data \<Rightarrow>
                     \<lparr>v_id = pid,
                      v_x = v_x prev_p_data + (v_x next_p_data - v_x prev_p_data) * alpha,
                      v_y = v_y prev_p_data + (v_y next_p_data - v_y prev_p_data) * alpha,
                      v_score = v_score next_p_data,
                      v_color = Some (case v_color next_p_data of
                                        Some col \<Rightarrow> col | None \<Rightarrow> (255, 255, 255))\<rparr>
                 | None \<Rightarrow> next_p_data)
                out)
           [] next_players"

text \<open>
  \<^verbatim>\<open>get_interpolated_state\<close>; \<open>render_time\<close> is the clock reading less
  \<^const>\<open>INTERPOLATION_OFFSET\<close>.
\<close>

definition get_interpolated_state :: "real \<Rightarrow> GameClient \<Rightarrow> py_error + RenderState" where
  "get_interpolated_state render_time c =
     (let buf = state_buffer c in
      if length buf < 2 then
        (if buf \<noteq> [] then
           (let latest = last buf
            in Inr \<lparr>rs_players = players_dict (sn_players latest), rs_coins = sn_coins latest\<rparr>)
         else Inr (current_display_state c))
      else
        (case find_prev render_time buf (length buf) of
           None \<Rightarrow>
             (let state = buf ! 0
              in Inr \<lparr>rs_players = players_dict (sn_players state), rs_coins = sn_coins state\<rparr>)
         | Some i \<Rightarrow>
             (let prev_state = buf ! i in
              if \<not> i + 1 < length buf then
                Inr \<lparr>rs_players = players_dict (sn_players prev_state),
                     rs_coins = sn_coins prev_state\<rparr>
              else
                (let next_state = buf ! (i + 1);
                     time_diff = timestamp next_state - timestamp prev_state
                 in case (if time_diff = 0 then Inr 0
                          else py_div (render_time - timestamp prev_state) time_diff) of
                      Inl e \<Rightarrow> Inl e
                    | Inr alpha \<Rightarrow>
                        Inr \<lparr>rs_players =
                               interpolate_players alpha
                                 (players_dict (sn_players prev_state))
                                 (players_dict (sn_players next_state)),
                             rs_coins = sn_coins next_state\<rparr>))))"

section \<open>Notions used in the statements\<close>

text \<open>
  The first player, in the order of the dictionary, that touches a coin; the effect of
  one award; and the number of coins of a list that a player is first to touch.
\<close>

definition first_toucher :: "Coin \<Rightarrow> (string \<times> Player) list \<Rightarrow> string option" where
  "first_toucher c ps = map_option fst (find (\<lambda>kp. touches c (snd kp)) ps)"

definition award :: "string \<Rightarrow> (string \<times> Player) list \<Rightarrow> (string \<times> Player) list" where
  "award k ps =
     map (\<lambda>(k', p). (k', p\<lparr>p_score := p_score p + (if k' = k then 1 else 0)\<rparr>)) ps"

definition tally :: "string \<Rightarrow> (string \<times> Player) list \<Rightarrow> (string \<times> Coin) list \<Rightarrow> nat" where
  "tally k ps cs = length (filter (\<lambda>kc. first_toucher (snd kc) ps = Some k) cs)"

definition total_score :: "(string \<times> Player) list \<Rightarrow> int" where
  "total_score ps = sum_list (map (p_score \<circ> snd) ps)"

text \<open>
  The snapshots that a sequence of messages carries; the record a snapshot holds for a
  player id (the last one, should the id occur twice); and the render state that passes
  a snapshot on as it is.
\<close>

definition state_updates :: "server_msg list \<Rightarrow> Snapshot list" where
  "state_updates msgs = concat (map (\<lambda>m. case m of StateUpdate sn \<Rightarrow> [sn] | _ \<Rightarrow> []) msgs)"

definition player_of :: "Snapshot \<Rightarrow> string \<Rightarrow> PlayerView option" where
  "player_of sn pid = find (\<lambda>p. v_id p = pid) (rev (sn_players sn))"

definition verbatim :: "Snapshot \<Rightarrow> RenderState" where
  "verbatim sn = \<lparr>rs_players = players_dict (sn_players sn), rs_coins = sn_coins sn\<rparr>"

text \<open>
  What holds of the server for as long as the game has not started: at most one player,
  no coin, and a coin counter of zero.
\<close>

definition waiting_inv :: "GameServer \<Rightarrow> bool" where
  "waiting_inv s \<longleftrightarrow>
     (\<not> game_started s \<longrightarrow> length (players s) \<le> 1 \<and> coins s = [] \<and> coin_counter s = 0)"

definition in_bounds :: "Player \<Rightarrow> bool" where
  "in_bounds p \<longleftrightarrow>
     PLAYER_RADIUS \<le> p_x p \<and> p_x p \<le> GAME_WIDTH - PLAYER_RADIUS \<and>
     PLAYER_RADIUS \<le> p_y p \<and> p_y p \<le> GAME_HEIGHT - PLAYER_RADIUS"

section \<open>Concrete states and histories\<close>

text \<open>
  A running game with two players and two coins; the first player stands next to the
  first coin. It serves as the concrete input of the instances below.
\<close>

definition demo_server :: GameServer where
  "demo_server =
     \<lparr>players =
        [(''player_0'', \<lparr>p_id = ''player_0'', p_x = 100, p_y = 100, p_color = (200, 50, 50),
                          p_score = 0, p_input_x = 1, p_input_y = 0\<rparr>),
         (''player_1'', \<lparr>p_id = ''player_1'', p_x = 470, p_y = 200, p_color = (50, 200, 50),
                          p_score = 2, p_input_x = 3, p_input_y = 4\<rparr>)],
      coins =
        [(''coin_0'', \<lparr>c_id = ''coin_0'', c_x = 110, c_y = 100\<rparr>),
         (''coin_1'', \<lparr>c_id = ''coin_1'', c_x = 300, c_y = 300\<rparr>)],
      connected_clients = {0, 1},
      player_id_map = [0 \<mapsto> ''player_0'', 1 \<mapsto> ''player_1''],
      last_coin_spawn = 0, coin_counter = 2, game_started = True,
      start_time = Some 0, stop_event = False\<rparr>"

text \<open>
  Two snapshots, one second apart, in which \<open>player_0\<close> moves from \<open>(0, 0)\<close> to
  \<open>(10, 0)\<close> and \<open>player_1\<close> joins; a client that has buffered both; and a client
  whose buffer is full.
\<close>

definition snap_prev :: Snapshot where
  "snap_prev =
     \<lparr>timestamp = 0,
      sn_players = [\<lparr>v_id = ''player_0'', v_x = 0, v_y = 0, v_score = 1,
                     v_color = Some (200, 50, 50)\<rparr>],
      sn_coins = []\<rparr>"

definition snap_next :: Snapshot where
  "snap_next =
     \<lparr>timestamp = 1,
      sn_players = [\<lparr>v_id = ''player_0'', v_x = 10, v_y = 0, v_score = 2,
                     v_color = Some (200, 50, 50)\<rparr>,
                    \<lparr>v_id = ''player_1'', v_x = 40, v_y = 40, v_score = 0,
                     v_color = Some (50, 200, 50)\<rparr>],
      sn_coins = [\<lparr>cv_id = ''coin_0'', cv_x = 70, cv_y = 70\<rparr>]\<rparr>"

definition demo_client :: GameClient where
  "demo_client = init_client\<lparr>state_buffer := [snap_prev, snap_next]\<rparr>"

definition full_client :: GameClient where
  "full_client = init_client\<lparr>state_buffer := snap_prev # replicate 39 snap_next\<rparr>"

text \<open>
  A history: three connections are accepted, at some point the first one is closed.
  The first two players stand apart; the five coins of the initial batch all fall on
  the second player.
\<close>

definition ev_c0 :: event where
  "ev_c0 = Connect 0 (100, 100) (200, 50, 50) 10 (\<lambda>i. (200, 200))"

definition ev_c1 :: event where
  "ev_c1 = Connect 1 (200, 200) (50, 200, 50) 11 (\<lambda>i. (200, 200))"

definition ev_c2 :: event where
  "ev_c2 = Connect 2 (300, 300) (50, 50, 200) 13 (\<lambda>i. (60, 60))"

text \<open>
  The states of that history: after the first two connections; after one pass of the
  tick loop; after the first connection is closed (\<open>n\<close> is the score of the player
  that is left and \<open>cs\<close> the coins); and after the third connection is accepted.
\<close>

definition after_two :: GameServer where
  "after_two =
     \<lparr>players =
        [(''player_0'', \<lparr>p_id = ''player_0'', p_x = 100, p_y = 100, p_color = (200, 50, 50),
                          p_score = 0, p_input_x = 0, p_input_y = 0\<rparr>),
         (''player_1'', \<lparr>p_id = ''player_1'', p_x = 200, p_y = 200, p_color = (50, 200, 50),
                          p_score = 0, p_input_x = 0, p_input_y = 0\<rparr>)],
      coins =
        [(''coin_0'', \<lparr>c_id = ''coin_0'', c_x = 200, c_y = 200\<rparr>),
         (''coin_1'', \<lparr>c_id = ''coin_1'', c_x = 200, c_y = 200\<rparr>),
         (''coin_2'', \<lparr>c_id = ''coin_2'', c_x = 200, c_y = 200\<rparr>),
         (''coin_3'', \<lparr>c_id = ''coin_3'', c_x = 200, c_y = 200\<rparr>),
         (''coin_4'', \<lparr>c_id = ''coin_4'', c_x = 200, c_y = 200\<rparr>)],
      connected_clients = {0, 1},
      player_id_map = [0 \<mapsto> ''player_0'', 1 \<mapsto> ''player_1''],
      last_coin_spawn = 0, coin_counter = 5, game_started = True,
      start_time = Some 11, stop_event = False\<rparr>"

definition after_tick :: GameServer where
  "after_tick =
     after_two\<lparr>players :=
        [(''player_0'', \<lparr>p_id = ''player_0'', p_x = 100, p_y = 100, p_color = (200, 50, 50),
                          p_score = 0, p_input_x = 0, p_input_y = 0\<rparr>),
         (''player_1'', \<lparr>p_id = ''player_1'', p_x = 200, p_y = 200, p_color = (50, 200, 50),
                          p_score = 5, p_input_x = 0, p_input_y = 0\<rparr>)],
      coins := []\<rparr>"

definition alone :: "int \<Rightarrow> (string \<times> Coin) list \<Rightarrow> GameServer" where
  "alone n cs =
     \<lparr>players =
        [(''player_1'', \<lparr>p_id = ''player_1'', p_x = 200, p_y = 200, p_color = (50, 200, 50),
                          p_score = n, p_input_x = 0, p_input_y = 0\<rparr>)],
      coins = cs,
      connected_clients = {1},
      player_id_map = [1 \<mapsto> ''player_1''],
      last_coin_spawn = 0, coin_counter = 5, game_started = True,
      start_time = Some 11, stop_event = False\<rparr>"

definition replaced :: "int \<Rightarrow> (string \<times> Coin) list \<Rightarrow> GameServer" where
  "replaced n cs =
     (alone n cs)\<lparr>players :=
        [(''player_1'', \<lparr>p_id = ''player_1'', p_x = 300, p_y = 300, p_color = (50, 50, 200),
                          p_score = 0, p_input_x = 0, p_input_y = 0\<rparr>)],
      connected_clients := {1, 2},
      player_id_map := [1 \<mapsto> ''player_1'', 2 \<mapsto> ''player_1'']\<rparr>"

section \<open>The simulation tick: movement\<close>

lemma velocity_eq:
  "velocity ix iy =
     Inr (if sqrt (ix\<^sup>2 + iy\<^sup>2) > 0
          then (ix / sqrt (ix\<^sup>2 + iy\<^sup>2) * PLAYER_SPEED,
                iy / sqrt (ix\<^sup>2 + iy\<^sup>2) * PLAYER_SPEED)
          else (0, 0))"
  by (simp add: velocity_def py_div_def Let_def)

lemma integrate_player_total: "\<exists>p'. integrate_player p = Inr p'"
  by (simp add: integrate_player_def velocity_eq Let_def split: prod.splits)

lemma integrate_player_bounds: "integrate_player p = Inr p' \<Longrightarrow> in_bounds p'"
  by (auto simp: integrate_player_def velocity_eq Let_def in_bounds_def
       GAME_WIDTH_def GAME_HEIGHT_def PLAYER_RADIUS_def split: prod.splits if_splits)

lemma integrate_player_fields:
  "integrate_player p = Inr p' \<Longrightarrow>
     p_id p' = p_id p \<and> p_score p' = p_score p \<and> p_color p' = p_color p \<and>
     p_input_x p' = p_input_x p \<and> p_input_y p' = p_input_y p"
  by (auto simp: integrate_player_def velocity_eq Let_def split: prod.splits if_splits)

lemma move_players_total: "\<exists>ps'. move_players ps = Inr ps'"
proof (induction ps)
  case Nil
  show ?case by simp
next
  case (Cons kp ps)
  obtain k p where kp: "kp = (k, p)" by (cases kp)
  obtain p' where p': "integrate_player p = Inr p'" using integrate_player_total by blast
  from Cons obtain ps' where "move_players ps = Inr ps'" by blast
  with kp p' show ?case by simp
qed

lemma move_players_props:
  "move_players ps = Inr ps' \<Longrightarrow>
     map fst ps' = map fst ps \<and> map (p_score \<circ> snd) ps' = map (p_score \<circ> snd) ps \<and>
     (\<forall>kp \<in> set ps'. in_bounds (snd kp))"
proof (induction ps arbitrary: ps')
  case Nil
  then show ?case by simp
next
  case (Cons kp ps)
  obtain k p where kp: "kp = (k, p)" by (cases kp)
  from Cons.prems kp obtain p' qs where
    p': "integrate_player p = Inr p'" and qs: "move_players ps = Inr qs" and
    eq: "ps' = (k, p') # qs"
    by (auto split: sum.splits)
  from Cons.IH [OF qs] integrate_player_bounds [OF p'] integrate_player_fields [OF p'] kp eq
  show ?case by simp
qed

section \<open>The simulation tick: collision scan and removal\<close>

lemma touches_score [simp]: "touches c (p\<lparr>p_score := n\<rparr>) = touches c p"
  by (simp add: touches_def)

lemma award_keys [simp]: "map fst (award k ps) = map fst ps"
  by (induction ps) (auto simp: award_def)

lemma award_absent: "k \<notin> fst ` set ps \<Longrightarrow> award k ps = ps"
  by (induction ps) (auto simp: award_def)

lemma first_toucher_award [simp]: "first_toucher c (award k ps) = first_toucher c ps"
  by (induction ps) (auto simp: award_def first_toucher_def)

lemma tally_award [simp]: "tally k (award k0 ps) cs = tally k ps cs"
  by (simp add: tally_def)

lemma claim_coin_eq:
  "distinct (map fst ps) \<Longrightarrow>
     claim_coin c ps = (case first_toucher c ps of None \<Rightarrow> None | Some k \<Rightarrow> Some (award k ps))"
proof (induction ps)
  case Nil
  show ?case by (simp add: first_toucher_def)
next
  case (Cons kp ps)
  obtain k p where kp: "kp = (k, p)" by (cases kp)
  show ?case
  proof (cases "touches c p")
    case True
    from Cons.prems kp have "k \<notin> fst ` set ps" by simp
    then have "award k ps = ps" by (rule award_absent)
    with True kp show ?thesis by (simp add: first_toucher_def award_def)
  next
    case False
    from Cons.prems have d: "distinct (map fst ps)" by simp
    have ft: "first_toucher c (kp # ps) = first_toucher c ps"
      using False kp by (simp add: first_toucher_def)
    show ?thesis
    proof (cases "first_toucher c ps")
      case None
      with Cons.IH [OF d] False kp ft show ?thesis by simp
    next
      case (Some k')
      then obtain q where "find (\<lambda>kp. touches c (snd kp)) ps = Some (k', q)"
        by (auto simp: first_toucher_def)
      then have "(k', q) \<in> set ps" by (auto simp: find_Some_iff in_set_conv_nth)
      with Cons.prems kp have "k' \<noteq> k" by force
      with Cons.IH [OF d] False kp ft Some show ?thesis by (simp add: award_def)
    qed
  qed
qed

lemma scan_coins_eq:
  "distinct (map fst ps) \<Longrightarrow>
     scan_coins cs ps rem =
       (map (\<lambda>(k, p). (k, p\<lparr>p_score := p_score p + int (tally k ps cs)\<rparr>)) ps,
        rem @ map fst (filter (\<lambda>kc. first_toucher (snd kc) ps \<noteq> None) cs))"
proof (induction cs arbitrary: ps rem)
  case Nil
  show ?case by (simp add: tally_def)
next
  case (Cons kc cs)
  obtain coin_id c where kc: "kc = (coin_id, c)" by (cases kc)
  show ?case
  proof (cases "first_toucher c ps")
    case None
    with Cons.prems have "claim_coin c ps = None" by (simp add: claim_coin_eq)
    moreover have "tally k ps (kc # cs) = tally k ps cs" for k
      using None kc by (simp add: tally_def)
    ultimately show ?thesis
      using Cons.IH [OF Cons.prems, of rem] None kc by simp
  next
    case (Some k0)
    with Cons.prems have cl: "claim_coin c ps = Some (award k0 ps)"
      by (simp add: claim_coin_eq)
    have d: "distinct (map fst (award k0 ps))" using Cons.prems by simp
    have t: "tally k ps (kc # cs) = (if k = k0 then 1 else 0) + tally k ps cs" for k
      using Some kc by (auto simp: tally_def)
    have "map (\<lambda>(k, p). (k, p\<lparr>p_score := p_score p + int (tally k ps cs)\<rparr>)) (award k0 ps)
        = map (\<lambda>(k, p). (k, p\<lparr>p_score := p_score p + int (tally k ps (kc # cs))\<rparr>)) ps"
      by (auto simp: award_def t)
    with Cons.IH [OF d, of "rem @ [coin_id]"] cl Some kc show ?thesis by simp
  qed
qed

lemma remove_coins_eq:
  "distinct ids \<Longrightarrow> set ids \<subseteq> fst ` set d \<Longrightarrow>
     remove_coins ids d = Inr (filter (\<lambda>kc. fst kc \<notin> set ids) d)"
proof (induction ids arbitrary: d)
  case Nil
  show ?case by simp
next
  case (Cons k ids)
  have del: "AList.delete k d = filter (\<lambda>kc. fst kc \<noteq> k) d"
    by (induction d) auto
  have "set ids \<subseteq> fst ` set (AList.delete k d)"
  proof
    fix x assume x: "x \<in> set ids"
    with Cons.prems have "x \<noteq> k" "x \<in> fst ` set d" by auto
    then show "x \<in> fst ` set (AList.delete k d)" by (force simp: del)
  qed
  with Cons.IH [of "AList.delete k d"] Cons.prems
  have "remove_coins ids (AList.delete k d)
          = Inr (filter (\<lambda>kc. fst kc \<notin> set ids) (AList.delete k d))" by simp
  moreover have "py_del k d = Inr (AList.delete k d)"
    using Cons.prems by (simp add: py_del_def)
  moreover have "filter (\<lambda>kc. fst kc \<notin> set ids) (filter (\<lambda>kc. fst kc \<noteq> k) d)
                  = filter (\<lambda>kc. fst kc \<notin> set (k # ids)) d"
    by (induction d) auto
  ultimately show ?case by (simp add: del)
qed

lemma marked_coins_removed:
  assumes "distinct (map fst cs)"
  shows "remove_coins (map fst (filter P cs)) cs = Inr (filter (\<lambda>kc. \<not> P kc) cs)"
proof -
  have d: "distinct (map fst (filter P cs))" using assms by (rule distinct_map_filter)
  have s: "set (map fst (filter P cs)) \<subseteq> fst ` set cs" by auto
  have "kc \<in> set cs \<Longrightarrow> fst kc \<in> set (map fst (filter P cs)) \<longleftrightarrow> P kc" for kc
  proof
    assume kc: "kc \<in> set cs" and "fst kc \<in> set (map fst (filter P cs))"
    then obtain kc' where kc': "kc' \<in> set cs" "P kc'" "fst kc' = fst kc" by auto
    with assms kc have "kc' = kc" by (meson distinct_map inj_onD)
    with kc' show "P kc" by simp
  next
    assume "kc \<in> set cs" "P kc"
    then show "fst kc \<in> set (map fst (filter P cs))" by auto
  qed
  then have "filter (\<lambda>kc. fst kc \<notin> set (map fst (filter P cs))) cs = filter (\<lambda>kc. \<not> P kc) cs"
    by (intro filter_cong refl) blast
  with remove_coins_eq [OF d s] show ?thesis by simp
qed

lemma spawn_if_due_players [simp]: "players (spawn_if_due t r s) = players s"
  by (simp add: spawn_if_due_def spawn_coin_def Let_def)

lemma spawn_if_due_distinct:
  "distinct (map fst (coins s)) \<Longrightarrow> distinct (map fst (coins (spawn_if_due t r s)))"
  by (simp add: spawn_if_due_def spawn_coin_def Let_def AList.distinct_update)

lemma update_game_state_eq:
  assumes dp: "distinct (map fst (players s))"
      and dc: "distinct (map fst (coins s))"
      and mv: "move_players (players s) = Inr ps"
  shows "update_game_state t r s =
           Inr ((spawn_if_due t r s)
                  \<lparr>players :=
                     map (\<lambda>(k, p). (k, p\<lparr>p_score := p_score p
                           + int (tally k ps (coins (spawn_if_due t r s)))\<rparr>)) ps,
                   coins := filter (\<lambda>kc. first_toucher (snd kc) ps = None)
                              (coins (spawn_if_due t r s))\<rparr>)"
proof -
  let ?s1 = "spawn_if_due t r s"
  from move_players_props [OF mv] dp have d: "distinct (map fst ps)" by simp
  have sc: "scan_coins (coins ?s1) ps [] =
              (map (\<lambda>(k, p). (k, p\<lparr>p_score := p_score p + int (tally k ps (coins ?s1))\<rparr>)) ps,
               map fst (filter (\<lambda>kc. first_toucher (snd kc) ps \<noteq> None) (coins ?s1)))"
    using scan_coins_eq [OF d, of "coins ?s1" "[]"] by simp
  have rm: "remove_coins (map fst (filter (\<lambda>kc. first_toucher (snd kc) ps \<noteq> None) (coins ?s1)))
              (coins ?s1) = Inr (filter (\<lambda>kc. first_toucher (snd kc) ps = None) (coins ?s1))"
    using marked_coins_removed [OF spawn_if_due_distinct [OF dc], of "\<lambda>kc. first_toucher (snd kc) ps \<noteq> None" t r]
    by simp
  have mv': "move_players (players ?s1) = Inr ps" using mv by simp
  show ?thesis
    by (simp only: update_game_state_def Let_def mv' sc rm sum.case prod.case)
qed




lemma sum_indicator_distinct:
  "distinct ks \<Longrightarrow> (\<Sum>k\<leftarrow>ks. if k = k0 then 1 else 0) = (if k0 \<in> set ks then 1 else (0::nat))"
  by (induction ks) auto

lemma first_toucher_in_keys: "first_toucher c ps = Some k \<Longrightarrow> k \<in> set (map fst ps)"
proof -
  assume "first_toucher c ps = Some k"
  then obtain q where "find (\<lambda>kp. touches c (snd kp)) ps = Some (k, q)"
    by (auto simp: first_toucher_def)
  then have "(k, q) \<in> set ps" by (auto simp: find_Some_iff in_set_conv_nth)
  then show ?thesis by force
qed

lemma sum_tally_keys:
  assumes "distinct ks" and "set (map fst ps) \<subseteq> set ks"
  shows "(\<Sum>k\<leftarrow>ks. tally k ps cs)
           = length (filter (\<lambda>kc. first_toucher (snd kc) ps \<noteq> None) cs)"
proof (induction cs)
  case Nil
  show ?case by (simp add: tally_def)
next
  case (Cons kc cs)
  show ?case
  proof (cases "first_toucher (snd kc) ps")
    case None
    then have "tally k ps (kc # cs) = tally k ps cs" for k
      by (simp add: tally_def)
    with None Cons show ?thesis by simp
  next
    case (Some k0)
    then have t: "tally k ps (kc # cs) = (if k = k0 then 1 else 0) + tally k ps cs" for k
      by (auto simp: tally_def)
    from Some have "k0 \<in> set ks"
      using first_toucher_in_keys assms(2) by blast
    with sum_indicator_distinct [OF assms(1), of k0]
    have one: "(\<Sum>k\<leftarrow>ks. if k = k0 then 1 else 0) = (1::nat)" by simp
    have "(\<Sum>k\<leftarrow>ks. tally k ps (kc # cs))
            = (\<Sum>k\<leftarrow>ks. if k = k0 then 1 else 0) + (\<Sum>k\<leftarrow>ks. tally k ps cs)"
      by (simp only: t sum_list_addf)
    with one Cons Some show ?thesis by simp
  qed
qed

lemma sum_tally:
  assumes "distinct (map fst ps)"
  shows "(\<Sum>k\<leftarrow>map fst ps. tally k ps cs)
           = length (filter (\<lambda>kc. first_toucher (snd kc) ps \<noteq> None) cs)"
  using sum_tally_keys [OF assms subset_refl] .

lemma total_score_tally:
  "total_score (map (\<lambda>(k, p). (k, p\<lparr>p_score := p_score p + int (f k)\<rparr>)) ps)
     = total_score ps + int (\<Sum>k\<leftarrow>map fst ps. f k)"
  by (induction ps) (auto simp: total_score_def)

lemma length_filter_split:
  "length cs - length (filter (\<lambda>x. \<not> P x) cs) = length (filter P cs)"
  using sum_length_filter_compl [of P cs] by simp

text \<open>
  Claim C3. In a simulation step, with \<open>ps\<close> the players after the movement and \<open>cs\<close> the
  coins after the spawn timer: the score of every player grows by the number of coins
  of which that player is the first, in the order of the dictionary, to be nearer than
  \<open>PLAYER_RADIUS + COIN_RADIUS\<close>; every coin is counted for one player at most, so these
  numbers add up to the number of coins that some player touches; the coins left are
  the untouched ones, in their order, removed in one pass after the scan; and the sum
  of the scores grows by the number of coins removed.
\<close>

theorem coin_exclusivity:
  assumes "distinct (map fst (players s))" and "distinct (map fst (coins s))"
  shows "\<exists>ps s'.
           move_players (players s) = Inr ps \<and>
           update_game_state current_time r s = Inr s' \<and>
           (let cs = coins (spawn_if_due current_time r s) in
            players s' = map (\<lambda>(k, p). (k, p\<lparr>p_score := p_score p + int (tally k ps cs)\<rparr>)) ps \<and>
            coins s' = filter (\<lambda>kc. first_toucher (snd kc) ps = None) cs \<and>
            (\<Sum>k\<leftarrow>map fst ps. tally k ps cs)
              = length (filter (\<lambda>kc. first_toucher (snd kc) ps \<noteq> None) cs) \<and>
            total_score (players s')
              = total_score (players s) + int (length cs - length (coins s')))"
proof -
  obtain ps where mv: "move_players (players s) = Inr ps"
    using move_players_total by blast
  let ?cs = "coins (spawn_if_due current_time r s)"
  from move_players_props [OF mv] assms(1)
  have d: "distinct (map fst ps)" and sc: "total_score ps = total_score (players s)"
    by (simp_all add: total_score_def)
  have st: "(\<Sum>k\<leftarrow>map fst ps. tally k ps ?cs)
              = length (filter (\<lambda>kc. first_toucher (snd kc) ps \<noteq> None) ?cs)"
    by (rule sum_tally [OF d])
  have len: "length ?cs - length (filter (\<lambda>kc. first_toucher (snd kc) ps = None) ?cs)
              = length (filter (\<lambda>kc. first_toucher (snd kc) ps \<noteq> None) ?cs)"
    using length_filter_split [of ?cs "\<lambda>kc. first_toucher (snd kc) ps \<noteq> None"] by simp
  have tot: "total_score (map (\<lambda>(k, p). (k, p\<lparr>p_score := p_score p + int (tally k ps ?cs)\<rparr>)) ps)
               = total_score (players s) + int (length ?cs
                   - length (filter (\<lambda>kc. first_toucher (snd kc) ps = None) ?cs))"
    by (simp only: total_score_tally st len sc)
  show ?thesis
    apply (rule exI [of _ ps])
    apply (rule exI)
    apply (rule conjI [OF mv])
    apply (rule conjI [OF update_game_state_eq [OF assms mv]])
    apply (simp only: Let_def GameServer.simps st)
    using tot by simp
qed

theorem coin_exclusivity_witness:
  "distinct (map fst (players demo_server)) \<and> distinct (map fst (coins demo_server)) \<and>
   (\<exists>ps s'.
      move_players (players demo_server) = Inr ps \<and>
      update_game_state 1 (20, 20) demo_server = Inr s' \<and>
      (let cs = coins (spawn_if_due 1 (20, 20) demo_server) in
       players s' = map (\<lambda>(k, p). (k, p\<lparr>p_score := p_score p + int (tally k ps cs)\<rparr>)) ps \<and>
       coins s' = filter (\<lambda>kc. first_toucher (snd kc) ps = None) cs \<and>
       (\<Sum>k\<leftarrow>map fst ps. tally k ps cs)
         = length (filter (\<lambda>kc. first_toucher (snd kc) ps \<noteq> None) cs) \<and>
       total_score (players s')
         = total_score (players demo_server) + int (length cs - length (coins s'))))"
proof -
  have d: "distinct (map fst (players demo_server))" "distinct (map fst (coins demo_server))"
    by (simp_all add: demo_server_def)
  from d coin_exclusivity [OF d, of 1 "(20, 20)"] show ?thesis by blast
qed


section \<open>The simulation tick: normalisation of the input\<close>








section \<open>The client: the snapshot buffer\<close>

lemma on_message_other:
  "(\<forall>sn. m \<noteq> StateUpdate sn) \<Longrightarrow> state_buffer (on_message m c) = state_buffer c"
  by (cases m) (simp_all add: on_message_def)

lemma on_message_update:
  "state_buffer (on_message (StateUpdate sn) c) =
     (if length (state_buffer c) < 40 then state_buffer c @ [sn]
      else tl (state_buffer c @ [sn]))"
  by (simp add: on_message_def Let_def)

lemma on_message_window:
  assumes "length (state_buffer c) \<le> 40"
  shows "state_buffer (on_message (StateUpdate sn) c) =
           drop (length (state_buffer c @ [sn]) - 40) (state_buffer c @ [sn])"
proof (cases "length (state_buffer c) < 40")
  case True
  then show ?thesis by (simp add: on_message_update)
next
  case False
  with assms have l: "length (state_buffer c) = 40" by simp
  then have "drop (length (state_buffer c @ [sn]) - 40) (state_buffer c @ [sn])
               = drop 1 (state_buffer c @ [sn])" by simp
  also have "\<dots> = tl (state_buffer c @ [sn])" by (metis One_nat_def drop_0 drop_Suc)
  finally show ?thesis using False by (simp add: on_message_update)
qed

lemma receive_messages_window:
  "length (state_buffer c) \<le> 40 \<Longrightarrow>
     state_buffer (receive_messages msgs c) =
       drop (length (state_buffer c @ state_updates msgs) - 40) (state_buffer c @ state_updates msgs)"
proof (induction msgs arbitrary: c)
  case Nil
  then show ?case by (simp add: receive_messages_def state_updates_def)
next
  case (Cons m msgs)
  show ?case
  proof (cases "\<exists>sn. m = StateUpdate sn")
    case False
    then have "state_buffer (on_message m c) = state_buffer c"
      by (simp add: on_message_other)
    moreover from False have "state_updates (m # msgs) = state_updates msgs"
      by (cases m) (simp_all add: state_updates_def)
    ultimately show ?thesis
      using Cons.IH [of "on_message m c"] Cons.prems by (simp add: receive_messages_def)
  next
    case True
    then obtain sn where m: "m = StateUpdate sn" by blast
    let ?b = "state_buffer c" and ?us = "state_updates msgs"
    have w: "state_buffer (on_message m c) = drop (length (?b @ [sn]) - 40) (?b @ [sn])"
      using on_message_window [OF Cons.prems] m by simp
    then have le: "length (state_buffer (on_message m c)) \<le> 40" using Cons.prems by simp
    have su: "state_updates (m # msgs) = sn # ?us" using m by (simp add: state_updates_def)
    have "drop (length (drop (length (?b @ [sn]) - 40) (?b @ [sn]) @ ?us) - 40)
            (drop (length (?b @ [sn]) - 40) (?b @ [sn]) @ ?us)
          = drop (length (?b @ sn # ?us) - 40) (?b @ sn # ?us)"
    proof (cases "length ?b < 40")
      case True
      then show ?thesis by simp
    next
      case False
      with Cons.prems have l: "length ?b = 40" by simp
      then obtain x xs where b: "?b = x # xs" by (cases ?b) auto
      with l have "length xs = 39" by simp
      with b show ?thesis by simp
    qed
    with Cons.IH [OF le] w su show ?thesis by (simp add: receive_messages_def)
  qed
qed

text \<open>
  Claim C8. Whatever messages a client receives, its buffer never holds more than 40
  snapshots: it holds the last 40 snapshots received, in the order of arrival. A
  snapshot appended to a buffer of 40 evicts the oldest one and leaves 40; a snapshot
  appended to a shorter buffer evicts nothing.
\<close>

theorem buffer_bound:
  "length (state_buffer (receive_messages msgs init_client)) \<le> 40 \<and>
   state_buffer (receive_messages msgs init_client)
     = drop (length (state_updates msgs) - 40) (state_updates msgs) \<and>
   (\<forall>c sn. length (state_buffer c) = 40 \<longrightarrow>
      state_buffer (on_message (StateUpdate sn) c) = tl (state_buffer c) @ [sn] \<and>
      length (state_buffer (on_message (StateUpdate sn) c)) = 40) \<and>
   (\<forall>c sn. length (state_buffer c) < 40 \<longrightarrow>
      state_buffer (on_message (StateUpdate sn) c) = state_buffer c @ [sn])"
proof -
  have w: "state_buffer (receive_messages msgs init_client)
             = drop (length (state_updates msgs) - 40) (state_updates msgs)"
    using receive_messages_window [of init_client msgs] by (simp add: init_client_def)
  then have "length (state_buffer (receive_messages msgs init_client)) \<le> 40" by simp
  moreover have "state_buffer (on_message (StateUpdate sn) c) = tl (state_buffer c) @ [sn] \<and>
      length (state_buffer (on_message (StateUpdate sn) c)) = 40"
    if "length (state_buffer c) = 40" for c sn
  proof -
    from that have "state_buffer c \<noteq> []" by auto
    with that show ?thesis by (simp add: on_message_update)
  qed
  moreover have "state_buffer (on_message (StateUpdate sn) c) = state_buffer c @ [sn]"
    if "length (state_buffer c) < 40" for c sn
    using that by (simp add: on_message_update)
  ultimately show ?thesis using w by blast
qed

section \<open>The client: interpolation\<close>

lemma find_prev_None:
  "find_prev rt buf n = None \<longleftrightarrow> (\<forall>i<n. rt < timestamp (buf ! i))"
  by (induction n) (auto simp: less_Suc_eq)

lemma find_prev_Some:
  "find_prev rt buf n = Some i \<longleftrightarrow>
     i < n \<and> timestamp (buf ! i) \<le> rt \<and> (\<forall>j. i < j \<and> j < n \<longrightarrow> rt < timestamp (buf ! j))"
proof (induction n)
  case 0
  show ?case by simp
next
  case (Suc n)
  show ?case
  proof (cases "timestamp (buf ! n) \<le> rt")
    case True
    have "(Some n = Some i) = (i < Suc n \<and> timestamp (buf ! i) \<le> rt \<and>
            (\<forall>j. i < j \<and> j < Suc n \<longrightarrow> rt < timestamp (buf ! j)))"
    proof
      assume "Some n = Some i"
      with True show "i < Suc n \<and> timestamp (buf ! i) \<le> rt \<and>
            (\<forall>j. i < j \<and> j < Suc n \<longrightarrow> rt < timestamp (buf ! j))" by auto
    next
      assume a: "i < Suc n \<and> timestamp (buf ! i) \<le> rt \<and>
            (\<forall>j. i < j \<and> j < Suc n \<longrightarrow> rt < timestamp (buf ! j))"
      have "\<not> i < n"
      proof
        assume "i < n"
        with a have "rt < timestamp (buf ! n)" by simp
        with True show False by simp
      qed
      with a show "Some n = Some i" by simp
    qed
    with True show ?thesis by simp
  next
    case False
    have "(i < n \<and> timestamp (buf ! i) \<le> rt \<and> (\<forall>j. i < j \<and> j < n \<longrightarrow> rt < timestamp (buf ! j)))
        = (i < Suc n \<and> timestamp (buf ! i) \<le> rt \<and>
            (\<forall>j. i < j \<and> j < Suc n \<longrightarrow> rt < timestamp (buf ! j)))"
      using False by (auto simp: less_Suc_eq)
    with False Suc show ?thesis by simp
  qed
qed

lemma find_app:
  "find P (xs @ ys) = (case find P xs of None \<Rightarrow> find P ys | Some x \<Rightarrow> Some x)"
  by (induction xs) simp_all

lemma map_of_foldl_update:
  "map_of (foldl (\<lambda>d p. AList.update (v_id p) p d) acc ps) pid =
     (case find (\<lambda>p. v_id p = pid) (rev ps) of Some p \<Rightarrow> Some p | None \<Rightarrow> map_of acc pid)"
proof (induction ps arbitrary: acc)
  case Nil
  show ?case by simp
next
  case (Cons p ps)
  show ?case
    by (simp add: Cons.IH AList.update_conv' find_app split: option.splits)
qed

lemma players_dict_lookup:
  "map_of (players_dict (sn_players sn)) pid = player_of sn pid"
  by (simp add: players_dict_def player_of_def map_of_foldl_update split: option.splits)

lemma distinct_foldl_update:
  "distinct (map fst acc) \<Longrightarrow>
     distinct (map fst (foldl (\<lambda>d p. AList.update (v_id p) p d) acc ps))"
  by (induction ps arbitrary: acc) (simp_all add: AList.distinct_update)

lemma players_dict_distinct: "distinct (map fst (players_dict ps))"
  by (simp add: players_dict_def distinct_foldl_update)

lemma update_fresh: "k \<notin> fst ` set d \<Longrightarrow> AList.update k v d = d @ [(k, v)]"
  by (induction d) auto

lemma foldl_update_fresh:
  "distinct (map fst kvs) \<Longrightarrow> fst ` set acc \<inter> fst ` set kvs = {} \<Longrightarrow>
     foldl (\<lambda>out (k, v). AList.update k (g k v) out) acc kvs
       = acc @ map (\<lambda>(k, v). (k, g k v)) kvs"
proof (induction kvs arbitrary: acc)
  case Nil
  show ?case by simp
next
  case (Cons kv kvs)
  obtain k v where kv: "kv = (k, v)" by (cases kv)
  from Cons.prems kv have fresh: "k \<notin> fst ` set acc" by auto
  have d: "distinct (map fst kvs)" using Cons.prems by simp
  have disj: "fst ` set (acc @ [(k, g k v)]) \<inter> fst ` set kvs = {}"
    using Cons.prems kv by auto
  from Cons.IH [OF d disj] show ?case
    by (simp add: kv update_fresh [OF fresh])
qed

lemma map_of_map_keyed:
  "map_of (map (\<lambda>(k, v). (k, f k v)) xs) k = map_option (f k) (map_of xs k)"
  by (induction xs) auto

lemma interpolate_players_eq:
  "distinct (map fst next_players) \<Longrightarrow>
   interpolate_players alpha prev_players next_players =
     map (\<lambda>(pid, np). (pid,
            case map_of prev_players pid of
              Some pp \<Rightarrow>
                \<lparr>v_id = pid,
                 v_x = v_x pp + (v_x np - v_x pp) * alpha,
                 v_y = v_y pp + (v_y np - v_y pp) * alpha,
                 v_score = v_score np,
                 v_color = Some (case v_color np of Some col \<Rightarrow> col | None \<Rightarrow> (255, 255, 255))\<rparr>
            | None \<Rightarrow> np)) next_players"
  unfolding interpolate_players_def
  by (subst foldl_update_fresh) simp_all

lemma receive_messages_display [simp]:
  "current_display_state (receive_messages msgs c) = current_display_state c"
proof (induction msgs arbitrary: c)
  case Nil
  show ?case by (simp add: receive_messages_def)
next
  case (Cons m msgs)
  have "current_display_state (on_message m c) = current_display_state c"
    by (cases m) (simp_all add: on_message_def Let_def)
  with Cons.IH [of "on_message m c"] show ?case by (simp add: receive_messages_def)
qed

lemma fallback_empty:
  "state_buffer c = [] \<Longrightarrow> get_interpolated_state rt c = Inr (current_display_state c)"
  by (simp add: get_interpolated_state_def)

lemma fallback_single:
  "state_buffer c = [sn] \<Longrightarrow> get_interpolated_state rt c = Inr (verbatim sn)"
  by (simp add: get_interpolated_state_def verbatim_def Let_def)

lemma fallback_oldest:
  assumes "2 \<le> length (state_buffer c)" and "\<forall>sn \<in> set (state_buffer c). rt < timestamp sn"
  shows "get_interpolated_state rt c = Inr (verbatim (hd (state_buffer c)))"
proof -
  from assms(2) have "find_prev rt (state_buffer c) (length (state_buffer c)) = None"
    by (simp add: find_prev_None)
  moreover from assms(1) have "state_buffer c ! 0 = hd (state_buffer c)"
    by (cases "state_buffer c") simp_all
  moreover from assms(1) have "\<not> length (state_buffer c) < 2" by simp
  ultimately show ?thesis
    by (simp only: get_interpolated_state_def verbatim_def Let_def if_False option.case)
qed

lemma fallback_newest:
  assumes "2 \<le> length (state_buffer c)" and "timestamp (last (state_buffer c)) \<le> rt"
  shows "get_interpolated_state rt c = Inr (verbatim (last (state_buffer c)))"
proof -
  let ?buf = "state_buffer c"
  from assms(1) have ne: "?buf \<noteq> []" by auto
  then have l: "last ?buf = ?buf ! (length ?buf - 1)" by (rule last_conv_nth)
  have fp: "find_prev rt ?buf (length ?buf) = Some (length ?buf - 1)"
    unfolding find_prev_Some using assms ne l by auto
  from assms(1) have nl: "\<not> length ?buf < 2" by simp
  have nx: "(\<not> length ?buf - 1 + 1 < length ?buf) = True" by simp
  show ?thesis
    by (simp only: get_interpolated_state_def verbatim_def Let_def nl if_False fp option.case
          nx if_True l)
qed

text \<open>
  Claim C7. With an empty buffer the query returns the display state of the client,
  which is always the empty default; with one snapshot it returns that snapshot as it
  is; with two or more, it returns the oldest snapshot as it is when every timestamp
  is later than the render time, and the newest as it is when the newest is not later
  than the render time. A snapshot returned as it is keeps its list of coins, and every
  player id is mapped to the record the snapshot holds for it.
\<close>

theorem interpolation_fallbacks:
  "(state_buffer c = [] \<longrightarrow> get_interpolated_state rt c = Inr (current_display_state c)) \<and>
   current_display_state (receive_messages msgs init_client) = \<lparr>rs_players = [], rs_coins = []\<rparr> \<and>
   (\<forall>sn. state_buffer c = [sn] \<longrightarrow> get_interpolated_state rt c = Inr (verbatim sn)) \<and>
   (2 \<le> length (state_buffer c) \<and> (\<forall>sn \<in> set (state_buffer c). rt < timestamp sn) \<longrightarrow>
      get_interpolated_state rt c = Inr (verbatim (hd (state_buffer c)))) \<and>
   (2 \<le> length (state_buffer c) \<and> timestamp (last (state_buffer c)) \<le> rt \<longrightarrow>
      get_interpolated_state rt c = Inr (verbatim (last (state_buffer c)))) \<and>
   (\<forall>sn pid. rs_coins (verbatim sn) = sn_coins sn \<and>
      map_of (rs_players (verbatim sn)) pid = player_of sn pid)"
  using fallback_empty [of c rt] fallback_single [of c _ rt] fallback_oldest [of c rt]
    fallback_newest [of c rt]
  by (simp add: init_client_def verbatim_def players_dict_lookup)

text \<open>
  Claim C6. Let \<open>prev\<close> be the newest snapshot of the buffer that is not later than the
  render time, and let it have a successor \<open>next\<close> in the buffer. Then the query returns
  a render state, without raising, with \<open>alpha\<close> the quotient of \<open>render_time - prev\<close> and
  \<open>next - prev\<close> in timestamps, or \<open>0\<close> when the two timestamps are equal; the coins
  are those of \<open>next\<close>; the players are those of \<open>next\<close>, where a player that \<open>prev\<close> has
  too is placed at \<open>prev + (next - prev) * alpha\<close> with the score and the colour of
  \<open>next\<close> (white when \<open>next\<close> carries no colour for it), and a player that only \<open>next\<close>
  has is passed on as it is.
\<close>

theorem interpolation_between:
  assumes "i + 1 < length (state_buffer c)"
      and "timestamp (state_buffer c ! i) \<le> rt"
      and "\<forall>j. i < j \<and> j < length (state_buffer c) \<longrightarrow> rt < timestamp (state_buffer c ! j)"
  shows "\<exists>alpha out.
           get_interpolated_state rt c = Inr out \<and>
           (let prev = state_buffer c ! i; next = state_buffer c ! (i + 1) in
            alpha = (if timestamp next = timestamp prev then 0
                     else (rt - timestamp prev) / (timestamp next - timestamp prev)) \<and>
            rs_coins out = sn_coins next \<and>
            (\<forall>pid. map_of (rs_players out) pid =
               (case player_of next pid of
                  None \<Rightarrow> None
                | Some np \<Rightarrow>
                    (case player_of prev pid of
                       None \<Rightarrow> Some np
                     | Some pp \<Rightarrow>
                         Some \<lparr>v_id = pid,
                               v_x = v_x pp + (v_x np - v_x pp) * alpha,
                               v_y = v_y pp + (v_y np - v_y pp) * alpha,
                               v_score = v_score np,
                               v_color = Some (case v_color np of
                                                 Some col \<Rightarrow> col | None \<Rightarrow> (255, 255, 255))\<rparr>))))"
proof -
  let ?buf = "state_buffer c"
  let ?prev = "?buf ! i" and ?next = "?buf ! (i + 1)"
  define alpha where
    "alpha = (if timestamp ?next = timestamp ?prev then 0
              else (rt - timestamp ?prev) / (timestamp ?next - timestamp ?prev))"
  have fp: "find_prev rt ?buf (length ?buf) = Some i"
    unfolding find_prev_Some using assms by auto
  have al: "(if timestamp ?next - timestamp ?prev = 0 then Inr 0
             else py_div (rt - timestamp ?prev) (timestamp ?next - timestamp ?prev)) = Inr alpha"
    by (simp add: alpha_def py_div_def)
  let ?out = "\<lparr>rs_players = interpolate_players alpha (players_dict (sn_players ?prev))
                                (players_dict (sn_players ?next)),
                rs_coins = sn_coins ?next\<rparr>"
  from assms(1) have nl: "\<not> length ?buf < 2" by simp
  from assms(1) have nx: "(\<not> i + 1 < length ?buf) = False" by simp
  have res: "get_interpolated_state rt c = Inr ?out"
    by (simp only: get_interpolated_state_def Let_def nl if_False fp option.case nx al sum.case)
  have lk: "map_of (rs_players ?out) pid =
              (case player_of ?next pid of
                 None \<Rightarrow> None
               | Some np \<Rightarrow>
                   (case player_of ?prev pid of
                      None \<Rightarrow> Some np
                    | Some pp \<Rightarrow>
                        Some \<lparr>v_id = pid,
                              v_x = v_x pp + (v_x np - v_x pp) * alpha,
                              v_y = v_y pp + (v_y np - v_y pp) * alpha,
                              v_score = v_score np,
                              v_color = Some (case v_color np of
                                                Some col \<Rightarrow> col | None \<Rightarrow> (255, 255, 255))\<rparr>))" for pid
  proof -
    let ?f = "\<lambda>pid np. case map_of (players_dict (sn_players ?prev)) pid of
              Some pp \<Rightarrow>
                \<lparr>v_id = pid,
                 v_x = v_x pp + (v_x np - v_x pp) * alpha,
                 v_y = v_y pp + (v_y np - v_y pp) * alpha,
                 v_score = v_score np,
                 v_color = Some (case v_color np of Some col \<Rightarrow> col | None \<Rightarrow> (255, 255, 255))\<rparr>
            | None \<Rightarrow> np"
    have "map_of (map (\<lambda>(k, v). (k, ?f k v)) xs) pid = map_option (?f pid) (map_of xs pid)" for xs
      by (rule map_of_map_keyed)
    then show ?thesis
      by (simp add: interpolate_players_eq [OF players_dict_distinct] players_dict_lookup
            split: option.splits)
  qed
  show ?thesis
    apply (rule exI [of _ alpha])
    apply (rule exI [of _ ?out])
    apply (rule conjI [OF res])
    apply (simp only: Let_def)
    apply (rule conjI [OF alpha_def])
    apply (rule conjI)
     apply simp
    using lk by blast
qed

theorem buffer_bound_witness:
  "length (state_buffer full_client) = 40 \<and>
   state_buffer (on_message (StateUpdate snap_prev) full_client)
     = replicate 39 snap_next @ [snap_prev] \<and>
   length (state_buffer (on_message (StateUpdate snap_prev) full_client)) = 40 \<and>
   length (state_buffer demo_client) < 40 \<and>
   state_buffer (on_message (StateUpdate snap_prev) demo_client)
     = [snap_prev, snap_next, snap_prev]"
proof -
  have f: "length (state_buffer full_client) = 40" by (simp add: full_client_def)
  have d: "length (state_buffer demo_client) < 40" by (simp add: demo_client_def)
  from buffer_bound [of "[]"] f d
  have "state_buffer (on_message (StateUpdate snap_prev) full_client)
          = tl (state_buffer full_client) @ [snap_prev]"
    and "length (state_buffer (on_message (StateUpdate snap_prev) full_client)) = 40"
    and "state_buffer (on_message (StateUpdate snap_prev) demo_client)
          = state_buffer demo_client @ [snap_prev]"
    by blast+
  with f d show ?thesis by (simp add: full_client_def demo_client_def)
qed

theorem interpolation_fallbacks_witness:
  "state_buffer init_client = [] \<and>
   get_interpolated_state 5 init_client = Inr \<lparr>rs_players = [], rs_coins = []\<rparr> \<and>
   get_interpolated_state 5 (init_client\<lparr>state_buffer := [snap_next]\<rparr>) = Inr (verbatim snap_next) \<and>
   2 \<le> length (state_buffer demo_client) \<and>
   get_interpolated_state (- 1) demo_client = Inr (verbatim snap_prev) \<and>
   timestamp (last (state_buffer demo_client)) \<le> 2 \<and>
   get_interpolated_state 2 demo_client = Inr (verbatim snap_next) \<and>
   map_of (rs_players (verbatim snap_next)) ''player_1''
     = Some \<lparr>v_id = ''player_1'', v_x = 40, v_y = 40, v_score = 0, v_color = Some (50, 200, 50)\<rparr>"
proof -
  have e: "state_buffer init_client = []" by (simp add: init_client_def)
  have l: "2 \<le> length (state_buffer demo_client)" by (simp add: demo_client_def)
  have o: "\<forall>sn \<in> set (state_buffer demo_client). - 1 < timestamp sn"
    by (simp add: demo_client_def snap_prev_def snap_next_def)
  have n: "timestamp (last (state_buffer demo_client)) \<le> 2"
    by (simp add: demo_client_def snap_next_def)
  from interpolation_fallbacks [of init_client 5 "[]"] e
  have 1: "get_interpolated_state 5 init_client = Inr \<lparr>rs_players = [], rs_coins = []\<rparr>"
    by (simp add: receive_messages_def)
  from interpolation_fallbacks [of "init_client\<lparr>state_buffer := [snap_next]\<rparr>" 5 "[]"]
  have 2: "get_interpolated_state 5 (init_client\<lparr>state_buffer := [snap_next]\<rparr>)
             = Inr (verbatim snap_next)"
    by simp
  from interpolation_fallbacks [of demo_client "- 1" "[]"] l o
  have 3: "get_interpolated_state (- 1) demo_client = Inr (verbatim snap_prev)"
    by (simp add: demo_client_def)
  from interpolation_fallbacks [of demo_client 2 "[]"] l n
  have 4: "get_interpolated_state 2 demo_client = Inr (verbatim snap_next)"
    by (simp add: demo_client_def)
  from interpolation_fallbacks [of demo_client 2 "[]"]
  have 5: "map_of (rs_players (verbatim snap_next)) ''player_1'' = player_of snap_next ''player_1''"
    by blast
  from e l n 1 2 3 4 5 show ?thesis
    by (simp add: player_of_def snap_next_def)
qed

theorem interpolation_between_witness:
  "0 + 1 < length (state_buffer demo_client) \<and>
   timestamp (state_buffer demo_client ! 0) \<le> 1 / 2 \<and>
   1 / 2 < timestamp (state_buffer demo_client ! 1) \<and>
   (\<exists>out. get_interpolated_state (1 / 2) demo_client = Inr out \<and>
      rs_coins out = [\<lparr>cv_id = ''coin_0'', cv_x = 70, cv_y = 70\<rparr>] \<and>
      map_of (rs_players out) ''player_0''
        = Some \<lparr>v_id = ''player_0'', v_x = 5, v_y = 0, v_score = 2, v_color = Some (200, 50, 50)\<rparr> \<and>
      map_of (rs_players out) ''player_1''
        = Some \<lparr>v_id = ''player_1'', v_x = 40, v_y = 40, v_score = 0, v_color = Some (50, 200, 50)\<rparr> \<and>
      map_of (rs_players out) ''player_2'' = None)"
proof -
  have a: "0 + 1 < length (state_buffer demo_client)" by (simp add: demo_client_def)
  have b: "timestamp (state_buffer demo_client ! 0) \<le> 1 / 2"
    by (simp add: demo_client_def snap_prev_def)
  have c: "1 / 2 < timestamp (state_buffer demo_client ! 1)"
    by (simp add: demo_client_def snap_next_def)
  have d: "\<forall>j. 0 < j \<and> j < length (state_buffer demo_client)
             \<longrightarrow> 1 / 2 < timestamp (state_buffer demo_client ! j)"
  proof (intro allI impI)
    fix j assume "0 < j \<and> j < length (state_buffer demo_client)"
    then have "j = 1" by (simp add: demo_client_def)
    with c show "1 / 2 < timestamp (state_buffer demo_client ! j)" by simp
  qed
  from interpolation_between [OF a b d] obtain alpha out where
    r: "get_interpolated_state (1 / 2) demo_client = Inr out" and
    p: "let prev = state_buffer demo_client ! 0; next = state_buffer demo_client ! (0 + 1) in
          alpha = (if timestamp next = timestamp prev then 0
                   else (1 / 2 - timestamp prev) / (timestamp next - timestamp prev)) \<and>
          rs_coins out = sn_coins next \<and>
          (\<forall>pid. map_of (rs_players out) pid =
             (case player_of next pid of
                None \<Rightarrow> None
              | Some np \<Rightarrow>
                  (case player_of prev pid of
                     None \<Rightarrow> Some np
                   | Some pp \<Rightarrow>
                       Some \<lparr>v_id = pid,
                             v_x = v_x pp + (v_x np - v_x pp) * alpha,
                             v_y = v_y pp + (v_y np - v_y pp) * alpha,
                             v_score = v_score np,
                             v_color = Some (case v_color np of
                                               Some col \<Rightarrow> col | None \<Rightarrow> (255, 255, 255))\<rparr>)))"
    by blast
  from p have "rs_coins out = [\<lparr>cv_id = ''coin_0'', cv_x = 70, cv_y = 70\<rparr>]"
    and "map_of (rs_players out) ''player_0''
        = Some \<lparr>v_id = ''player_0'', v_x = 5, v_y = 0, v_score = 2, v_color = Some (200, 50, 50)\<rparr>"
    and "map_of (rs_players out) ''player_1''
        = Some \<lparr>v_id = ''player_1'', v_x = 40, v_y = 40, v_score = 0, v_color = Some (50, 200, 50)\<rparr>"
    and "map_of (rs_players out) ''player_2'' = None"
    by (simp_all add: Let_def demo_client_def snap_prev_def snap_next_def player_of_def)
  with a b c r show ?thesis by blast
qed

section \<open>Connections and the start of the game\<close>

lemma str_nat_small:
  "str_nat 0 = ''0''" "str_nat 1 = ''1''" "str_nat 2 = ''2''" "str_nat 3 = ''3''"
  "str_nat 4 = ''4''" "str_nat (Suc 0) = ''1''"
  "str_nat (Suc (Suc 0)) = ''2''" "str_nat (Suc (Suc (Suc 0))) = ''3''"
  "str_nat (Suc (Suc (Suc (Suc 0)))) = ''4''"
  by (simp_all add: str_nat.simps)

lemma range5: "[0..<5] = [0, 1, 2, 3, 4]"
  by (simp add: upt_rec)

lemma spawn_coin_fields [simp]:
  "players (spawn_coin r s) = players s"
  "connected_clients (spawn_coin r s) = connected_clients s"
  "player_id_map (spawn_coin r s) = player_id_map s"
  "game_started (spawn_coin r s) = game_started s"
  "start_time (spawn_coin r s) = start_time s"
  "stop_event (spawn_coin r s) = stop_event s"
  "last_coin_spawn (spawn_coin r s) = last_coin_spawn s"
  "coin_counter (spawn_coin r s) = coin_counter s + 1"
  by (simp_all add: spawn_coin_def Let_def)

lemma fold_spawn_fields [simp]:
  "players (fold (\<lambda>i. spawn_coin (rc i)) is s) = players s"
  "connected_clients (fold (\<lambda>i. spawn_coin (rc i)) is s) = connected_clients s"
  "player_id_map (fold (\<lambda>i. spawn_coin (rc i)) is s) = player_id_map s"
  "game_started (fold (\<lambda>i. spawn_coin (rc i)) is s) = game_started s"
  "start_time (fold (\<lambda>i. spawn_coin (rc i)) is s) = start_time s"
  "stop_event (fold (\<lambda>i. spawn_coin (rc i)) is s) = stop_event s"
  by (induction "is" arbitrary: s; simp)+

lemma initial_batch:
  assumes "coins s = []" and "coin_counter s = 0"
  shows "map fst (coins (fold (\<lambda>i. spawn_coin (rc i)) [0..<5] s))
           = [''coin_0'', ''coin_1'', ''coin_2'', ''coin_3'', ''coin_4'']"
    and "coin_counter (fold (\<lambda>i. spawn_coin (rc i)) [0..<5] s) = 5"
  using assms by (simp_all add: range5 spawn_coin_def Let_def str_nat_small)

lemma update_game_state_flags:
  "update_game_state t r s = Inr s' \<Longrightarrow>
     game_started s' = game_started s \<and> stop_event s' = stop_event s \<and>
     connected_clients s' = connected_clients s \<and> player_id_map s' = player_id_map s \<and>
     start_time s' = start_time s"
  by (auto simp: update_game_state_def spawn_if_due_def Let_def
        split: sum.splits prod.splits if_splits)

lemma disconnect_flags:
  "handle_client_disconnect ws pid s = Inr s' \<Longrightarrow>
     game_started s' = game_started s \<and> coins s' = coins s \<and>
     coin_counter s' = coin_counter s \<and> length (players s') \<le> length (players s)"
  by (auto simp: handle_client_disconnect_def Let_def AList.length_delete_le split: if_splits)

lemma message_flags:
  "game_started (process_delayed_message ws m s) = game_started s \<and>
   coins (process_delayed_message ws m s) = coins s \<and>
   coin_counter (process_delayed_message ws m s) = coin_counter s \<and>
   length (players (process_delayed_message ws m s)) = length (players s)"
proof -
  have "length (AList.map_entry k f xs) = length xs" for k and f :: "Player \<Rightarrow> Player" and xs
    by (induction xs) auto
  then show ?thesis
    by (auto simp: process_delayed_message_def split: client_msg.splits option.splits)
qed

lemma length_update_le: "length (AList.update k v xs) \<le> Suc (length xs)"
  by (induction xs) auto

lemma connect_started:
  "game_started (fst (handle_client_connect ws pos col now rc s)) \<longleftrightarrow>
     game_started s \<or> length (players (fst (handle_client_connect ws pos col now rc s))) = 2"
  by (simp add: handle_client_connect_def Let_def)

lemma step_keeps_started:
  "step e s = Inr s' \<Longrightarrow> game_started s \<Longrightarrow> game_started s'"
proof (cases e)
  case (Connect ws pos col now rc)
  assume "step e s = Inr s'" "game_started s"
  with Connect connect_started [of ws pos col now rc s] show ?thesis by auto
next
  case (Disconnect ws)
  assume "step e s = Inr s'" "game_started s"
  with Disconnect show ?thesis
    by (auto split: option.splits dest: disconnect_flags)
next
  case (Message ws m)
  assume "step e s = Inr s'" "game_started s"
  with Message message_flags [of ws m s] show ?thesis by auto
next
  case (Tick now r now')
  assume "step e s = Inr s'" "game_started s"
  with Tick show ?thesis
    by (auto simp: game_loop_body_def split: if_splits sum.splits dest: update_game_state_flags)
qed

lemma step_starts_only_on_connect:
  assumes "step e s = Inr s'" and "\<not> game_started s" and "game_started s'"
  shows "\<exists>ws pos col now rc. e = Connect ws pos col now rc"
proof (cases e)
  case (Connect ws pos col now rc)
  then show ?thesis by blast
next
  case (Disconnect ws)
  with assms show ?thesis by (auto split: option.splits dest: disconnect_flags)
next
  case (Message ws m)
  with assms message_flags [of ws m s] show ?thesis by auto
next
  case (Tick now r now')
  with assms show ?thesis
    by (auto simp: game_loop_body_def split: if_splits sum.splits dest: update_game_state_flags)
qed

lemma connect_waiting:
  assumes "\<not> game_started (fst (handle_client_connect ws pos col now rc s))"
  shows "coins (fst (handle_client_connect ws pos col now rc s)) = coins s"
    and "coin_counter (fst (handle_client_connect ws pos col now rc s)) = coin_counter s"
    and "length (players (fst (handle_client_connect ws pos col now rc s))) \<le> Suc (length (players s))"
    and "length (players (fst (handle_client_connect ws pos col now rc s))) \<noteq> 2"
    and "\<not> game_started s"
  using assms length_update_le [of _ _ "players s"]
  by (simp_all add: handle_client_connect_def Let_def split: if_splits)

lemma step_waiting_inv:
  assumes "step e s = Inr s'" and "waiting_inv s"
  shows "waiting_inv s'"
proof (cases e)
  case (Connect ws pos col now rc)
  with assms(1) have s': "s' = fst (handle_client_connect ws pos col now rc s)" by simp
  show ?thesis
    unfolding waiting_inv_def
  proof
    assume ns: "\<not> game_started s'"
    from connect_waiting [OF ns [unfolded s']] s'
    have c: "coins s' = coins s" "coin_counter s' = coin_counter s"
      and l: "length (players s') \<le> Suc (length (players s))" "length (players s') \<noteq> 2"
      and n: "\<not> game_started s"
      by simp_all
    from assms(2) n have "length (players s) \<le> 1" "coins s = []" "coin_counter s = 0"
      by (simp_all add: waiting_inv_def)
    with c l show "length (players s') \<le> 1 \<and> coins s' = [] \<and> coin_counter s' = 0"
      by simp
  qed
next
  case (Disconnect ws)
  from assms(1) Disconnect obtain pid where
    d: "handle_client_disconnect ws pid s = Inr s'"
    by (auto split: option.splits)
  from disconnect_flags [OF d] assms(2) show ?thesis
    by (auto simp: waiting_inv_def)
next
  case (Message ws m)
  with assms message_flags [of ws m s] show ?thesis by (auto simp: waiting_inv_def)
next
  case (Tick now r now')
  show ?thesis
  proof (cases "game_started s \<and> \<not> stop_event s")
    case True
    with assms(1) Tick obtain s1 where "update_game_state now r s = Inr s1" "s' = s1"
      by (auto simp: game_loop_body_def split: sum.splits)
    with update_game_state_flags True show ?thesis by (simp add: waiting_inv_def)
  next
    case False
    with assms(1) Tick have "s' = s \<or> game_started s"
      by (auto simp: game_loop_body_def split: if_splits)
    moreover have "waiting_inv s'" if "game_started s"
      using step_keeps_started [OF assms(1) that] by (simp add: waiting_inv_def)
    ultimately show ?thesis using assms(2) by blast
  qed
qed

lemma run_waiting_inv:
  "run evs s = Inr s' \<Longrightarrow> waiting_inv s \<Longrightarrow> waiting_inv s'"
proof (induction evs arbitrary: s)
  case Nil
  then show ?case by simp
next
  case (Cons e evs)
  from Cons.prems obtain s1 where s1: "step e s = Inr s1" and r: "run evs s1 = Inr s'"
    by (auto split: sum.splits)
  from step_waiting_inv [OF s1 Cons.prems(2)] Cons.IH [OF r] show ?case by blast
qed

lemma init_waiting_inv: "waiting_inv (init_server t0)"
  by (simp add: waiting_inv_def init_server_def)

lemma connect_transition:
  assumes "\<not> game_started s" and "game_started (fst (handle_client_connect ws pos col now rc s))"
  shows "handle_client_connect ws pos col now rc s =
           (let player_id = ''player_'' @ str_nat (length (players s));
                player = \<lparr>p_id = player_id, p_x = fst pos, p_y = snd pos, p_color = col,
                          p_score = 0, p_input_x = 0, p_input_y = 0\<rparr>;
                s1 = s\<lparr>players := AList.update player_id player (players s),
                       connected_clients := insert ws (connected_clients s),
                       player_id_map := (player_id_map s)(ws \<mapsto> player_id)\<rparr>;
                s2 = fold (\<lambda>i. spawn_coin (rc i)) [0..<5]
                       (s1\<lparr>game_started := True, start_time := Some now\<rparr>)
            in (s2, [Send ws (Init player_id GAME_WIDTH GAME_HEIGHT PLAYER_RADIUS COIN_RADIUS),
                     SendAll (connected_clients s2) GameStart]))"
  using assms by (simp add: handle_client_connect_def Let_def split: if_splits)

lemma connect_when_started:
  assumes "game_started s"
  shows "handle_client_connect ws pos col now rc s =
           (let player_id = ''player_'' @ str_nat (length (players s));
                player = \<lparr>p_id = player_id, p_x = fst pos, p_y = snd pos, p_color = col,
                          p_score = 0, p_input_x = 0, p_input_y = 0\<rparr>
            in (s\<lparr>players := AList.update player_id player (players s),
                   connected_clients := insert ws (connected_clients s),
                   player_id_map := (player_id_map s)(ws \<mapsto> player_id)\<rparr>,
                [Send ws (Init player_id GAME_WIDTH GAME_HEIGHT PLAYER_RADIUS COIN_RADIUS),
                 Send ws GameStart]))"
  using assms by (simp add: handle_client_connect_def Let_def)

lemma connect_still_waiting:
  assumes "\<not> game_started (fst (handle_client_connect ws pos col now rc s))"
  shows "snd (handle_client_connect ws pos col now rc s) =
           [Send ws (Init (''player_'' @ str_nat (length (players s)))
                       GAME_WIDTH GAME_HEIGHT PLAYER_RADIUS COIN_RADIUS)]"
  using assms by (simp add: handle_client_connect_def Let_def split: if_splits)

text \<open>
  Claim C9. In every state that a history of the server reaches, accepting a
  connection starts the game exactly when the game has not started and the connection
  brings the number of players to two, and it has then gone from one player to two; on
  that transition, and on no other connection, the five coins \<open>coin_0\<close> to \<open>coin_4\<close> are
  spawned and \<open>game_start\<close> is sent to every connected client. A connection accepted
  when the game has started spawns nothing and gets \<open>game_start\<close> for itself at once;
  one accepted while the game keeps waiting gets the \<open>init\<close> message only. No step
  resets \<open>game_started\<close>, so the transition happens once in a history at most, and no
  step but a connection sets it.
\<close>

theorem session_gating:
  assumes "run evs (init_server t0) = Inr s"
  shows "\<exists>s' out init_msg.
           handle_client_connect ws pos col now rc s = (s', out) \<and>
           init_msg = Init (''player_'' @ str_nat (length (players s)))
                        GAME_WIDTH GAME_HEIGHT PLAYER_RADIUS COIN_RADIUS \<and>
           (game_started s' \<longleftrightarrow> game_started s \<or> length (players s') = 2) \<and>
           (\<not> game_started s \<and> game_started s' \<longrightarrow>
              length (players s) = 1 \<and> coins s = [] \<and>
              map fst (coins s') = [''coin_0'', ''coin_1'', ''coin_2'', ''coin_3'', ''coin_4''] \<and>
              start_time s' = Some now \<and> ws \<in> connected_clients s' \<and>
              out = [Send ws init_msg, SendAll (connected_clients s') GameStart]) \<and>
           (game_started s \<longrightarrow>
              coins s' = coins s \<and> coin_counter s' = coin_counter s \<and>
              start_time s' = start_time s \<and>
              out = [Send ws init_msg, Send ws GameStart]) \<and>
           (\<not> game_started s' \<longrightarrow> coins s' = coins s \<and> out = [Send ws init_msg]) \<and>
           (\<forall>e s''. step e s = Inr s'' \<and> game_started s \<longrightarrow> game_started s'') \<and>
           (\<forall>e s''. step e s = Inr s'' \<and> \<not> game_started s \<and> game_started s'' \<longrightarrow>
              (\<exists>ws pos col now rc. e = Connect ws pos col now rc))"
proof -
  let ?r = "handle_client_connect ws pos col now rc s"
  let ?s' = "fst ?r" and ?out = "snd ?r"
  let ?init = "Init (''player_'' @ str_nat (length (players s)))
                 GAME_WIDTH GAME_HEIGHT PLAYER_RADIUS COIN_RADIUS"
  have inv: "waiting_inv s"
    using run_waiting_inv [OF assms init_waiting_inv] .
  have a: "game_started ?s' \<longleftrightarrow> game_started s \<or> length (players ?s') = 2"
    by (rule connect_started)
  have b: "length (players s) = 1 \<and> coins s = [] \<and>
           map fst (coins ?s') = [''coin_0'', ''coin_1'', ''coin_2'', ''coin_3'', ''coin_4''] \<and>
           start_time ?s' = Some now \<and> ws \<in> connected_clients ?s' \<and>
           ?out = [Send ws ?init, SendAll (connected_clients ?s') GameStart]"
    if ns: "\<not> game_started s" and st: "game_started ?s'"
  proof -
    from inv ns have w: "length (players s) \<le> 1" "coins s = []" "coin_counter s = 0"
      by (simp_all add: waiting_inv_def)
    let ?pid = "''player_'' @ str_nat (length (players s))"
    let ?pl = "\<lparr>p_id = ?pid, p_x = fst pos, p_y = snd pos, p_color = col,
                 p_score = 0, p_input_x = 0, p_input_y = 0\<rparr>"
    let ?s1 = "s\<lparr>players := AList.update ?pid ?pl (players s),
                  connected_clients := insert ws (connected_clients s),
                  player_id_map := (player_id_map s)(ws \<mapsto> ?pid)\<rparr>"
    let ?s1' = "?s1\<lparr>game_started := True, start_time := Some now\<rparr>"
    have eq: "?r = (fold (\<lambda>i. spawn_coin (rc i)) [0..<5] ?s1',
                    [Send ws ?init,
                     SendAll (connected_clients (fold (\<lambda>i. spawn_coin (rc i)) [0..<5] ?s1')) GameStart])"
      using connect_transition [OF ns st] by (simp add: Let_def)
    from a ns st have "length (players ?s') = 2" by simp
    then have "length (AList.update ?pid ?pl (players s)) = 2" by (simp add: eq)
    with length_update_le [of ?pid ?pl "players s"] w(1) have l: "length (players s) = 1"
      by simp
    have c: "coins ?s1' = []" "coin_counter ?s1' = 0" using w by simp_all
    from initial_batch(1) [OF c, of rc] l w(2) show ?thesis
      by (simp add: eq)
  qed
  have c: "coins ?s' = coins s \<and> coin_counter ?s' = coin_counter s \<and>
           start_time ?s' = start_time s \<and> ?out = [Send ws ?init, Send ws GameStart]"
    if "game_started s"
    by (simp add: connect_when_started [OF that] Let_def)
  have d: "coins ?s' = coins s \<and> ?out = [Send ws ?init]" if "\<not> game_started ?s'"
    using connect_waiting(1) [OF that] connect_still_waiting [OF that] by simp
  have e: "\<forall>e s''. step e s = Inr s'' \<and> game_started s \<longrightarrow> game_started s''"
    using step_keeps_started by blast
  have f: "\<forall>e s''. step e s = Inr s'' \<and> \<not> game_started s \<and> game_started s'' \<longrightarrow>
              (\<exists>ws pos col now rc. e = Connect ws pos col now rc)"
    using step_starts_only_on_connect by blast
  show ?thesis
    apply (rule exI [of _ ?s'])
    apply (rule exI [of _ ?out])
    apply (rule exI [of _ ?init])
    using a b c d e f by auto
qed

section \<open>What the operations do to the scores\<close>

text \<open>
  Applying an input leaves every score as it is; closing a connection only takes
  entries out of the store; a pass of the tick adds to each score the number of coins
  the player is first to touch; accepting a connection stores the new player under the
  id made from the number of players, which appends a player with score 0 when that
  id is not in the store and overwrites the entry of that id when it is.
\<close>

lemma scores_after_message:
  "map (\<lambda>kp. (fst kp, p_score (snd kp))) (players (process_delayed_message ws m s))
     = map (\<lambda>kp. (fst kp, p_score (snd kp))) (players s)"
proof -
  have "map (\<lambda>kp. (fst kp, p_score (snd kp)))
          (AList.map_entry k (\<lambda>p. p\<lparr>p_input_x := a, p_input_y := b\<rparr>) xs)
        = map (\<lambda>kp. (fst kp, p_score (snd kp))) xs" for k a b and xs :: "(string \<times> Player) list"
    by (induction xs) auto
  then show ?thesis
    by (auto simp: process_delayed_message_def split: client_msg.splits option.splits)
qed

lemma players_after_disconnect:
  "handle_client_disconnect ws pid s = Inr s' \<Longrightarrow>
     players s' = filter (\<lambda>kp. fst kp \<noteq> pid) (players s)"
proof -
  have del: "AList.delete k d = filter (\<lambda>kp. fst kp \<noteq> k) d" for k and d :: "(string \<times> Player) list"
    by (induction d) auto
  assume "handle_client_disconnect ws pid s = Inr s'"
  then show ?thesis
    by (auto simp: handle_client_disconnect_def Let_def del [symmetric] split: if_splits)
qed

lemma scores_after_tick:
  assumes "distinct (map fst (players s))" and "distinct (map fst (coins s))"
      and "update_game_state t r s = Inr s'"
  shows "\<exists>ps. move_players (players s) = Inr ps \<and>
           map (\<lambda>kp. (fst kp, p_score (snd kp))) (players s')
             = map (\<lambda>kp. (fst kp, p_score (snd kp)
                     + int (tally (fst kp) ps (coins (spawn_if_due t r s))))) (players s)"
proof -
  obtain ps where mv: "move_players (players s) = Inr ps"
    using move_players_total by blast
  let ?cs = "coins (spawn_if_due t r s)"
  from move_players_props [OF mv]
  have k: "map fst ps = map fst (players s)"
    and sc: "map (p_score \<circ> snd) ps = map (p_score \<circ> snd) (players s)" by simp_all
  have "players s' = map (\<lambda>(k, p). (k, p\<lparr>p_score := p_score p + int (tally k ps ?cs)\<rparr>)) ps"
    using update_game_state_eq [OF assms(1,2) mv, of t r] assms(3) by auto
  then have "map (\<lambda>kp. (fst kp, p_score (snd kp))) (players s')
          = map (\<lambda>kp. (fst kp, p_score (snd kp) + int (tally (fst kp) ps ?cs))) ps"
    by (simp add: case_prod_beta)
  also have "\<dots> = map (\<lambda>kp. (fst kp, p_score (snd kp) + int (tally (fst kp) ps ?cs))) (players s)"
  proof (rule nth_equalityI)
    show "length (map (\<lambda>kp. (fst kp, p_score (snd kp) + int (tally (fst kp) ps ?cs))) ps)
        = length (map (\<lambda>kp. (fst kp, p_score (snd kp) + int (tally (fst kp) ps ?cs))) (players s))"
      using k by (metis length_map)
  next
    fix i assume "i < length (map (\<lambda>kp. (fst kp, p_score (snd kp) + int (tally (fst kp) ps ?cs))) ps)"
    then have i: "i < length ps" by simp
    with k have i': "i < length (players s)" by (metis length_map)
    from k i i' have "fst (ps ! i) = fst (players s ! i)" by (metis nth_map)
    moreover from sc i i' have "p_score (snd (ps ! i)) = p_score (snd (players s ! i))"
      by (metis comp_apply nth_map)
    ultimately show "map (\<lambda>kp. (fst kp, p_score (snd kp) + int (tally (fst kp) ps ?cs))) ps ! i
        = map (\<lambda>kp. (fst kp, p_score (snd kp) + int (tally (fst kp) ps ?cs))) (players s) ! i"
      using i i' by simp
  qed
  finally show ?thesis using mv by blast
qed

lemma players_after_connect:
  "players (fst (handle_client_connect ws pos col now rc s)) =
     AList.update (''player_'' @ str_nat (length (players s)))
       \<lparr>p_id = ''player_'' @ str_nat (length (players s)), p_x = fst pos, p_y = snd pos,
        p_color = col, p_score = 0, p_input_x = 0, p_input_y = 0\<rparr> (players s)"
proof -
  let ?pid = "''player_'' @ str_nat (length (players s))"
  let ?pl = "\<lparr>p_id = ?pid, p_x = fst pos, p_y = snd pos,
        p_color = col, p_score = 0, p_input_x = 0, p_input_y = 0\<rparr>"
  show ?thesis
  proof (cases "length (AList.update ?pid ?pl (players s)) = 2 \<and> \<not> game_started s")
    case True
    then show ?thesis by (simp add: handle_client_connect_def Let_def)
  next
    case False
    then show ?thesis
      by (cases "game_started s") (simp_all add: handle_client_connect_def Let_def)
  qed
qed

lemma connect_with_fresh_id:
  assumes "''player_'' @ str_nat (length (players s)) \<notin> fst ` set (players s)"
  shows "players (fst (handle_client_connect ws pos col now rc s)) =
           players s @
             [(''player_'' @ str_nat (length (players s)),
               \<lparr>p_id = ''player_'' @ str_nat (length (players s)), p_x = fst pos, p_y = snd pos,
                p_color = col, p_score = 0, p_input_x = 0, p_input_y = 0\<rparr>)]"
  unfolding players_after_connect by (rule update_fresh [OF assms])

section \<open>A history in which a player id is reused\<close>

lemma touches_iff:
  "touches c p \<longleftrightarrow> (c_x c - p_x p)\<^sup>2 + (c_y c - p_y p)\<^sup>2 < (PLAYER_RADIUS + COIN_RADIUS)\<^sup>2"
proof -
  have "0 \<le> PLAYER_RADIUS + COIN_RADIUS" by (simp add: PLAYER_RADIUS_def COIN_RADIUS_def)
  then have "sqrt ((PLAYER_RADIUS + COIN_RADIUS)\<^sup>2) = PLAYER_RADIUS + COIN_RADIUS" by simp
  then show ?thesis
    unfolding touches_def by (metis real_sqrt_less_iff)
qed

lemmas eval_connect =
  ev_c0_def ev_c1_def ev_c2_def init_server_def handle_client_connect_def Let_def
  str_nat_small range5 spawn_coin_def

lemmas eval_tick =
  game_loop_body_def update_game_state_def spawn_if_due_def integrate_player_def
  velocity_def touches_iff py_del_def py_div_def
  COIN_SPAWN_INTERVAL_def PLAYER_RADIUS_def COIN_RADIUS_def GAME_WIDTH_def GAME_HEIGHT_def
  TICK_DELTA_def TICK_RATE_def

lemma run_two: "run [ev_c0, ev_c1] (init_server 0) = Inr after_two"
  by (simp add: eval_connect after_two_def insert_commute)

lemma run_app: "run (es @ es') s = (case run es s of Inl e \<Rightarrow> Inl e | Inr s' \<Rightarrow> run es' s')"
  by (induction es arbitrary: s) (auto split: sum.splits)

lemma step_tick: "step (Tick 1 (20, 20) 1) after_two = Inr after_tick"
  by (simp add: after_two_def after_tick_def eval_tick)

lemma step_disconnect_two: "step (Disconnect 0) after_two = Inr (alone 0 (coins after_two))"
  by (auto simp: after_two_def alone_def handle_client_disconnect_def Let_def)

lemma step_disconnect_tick: "step (Disconnect 0) after_tick = Inr (alone 5 [])"
  by (auto simp: after_two_def after_tick_def alone_def handle_client_disconnect_def Let_def)

lemma connect_third:
  "handle_client_connect 2 (300, 300) (50, 50, 200) 13 (\<lambda>i. (60, 60)) (alone n cs) =
     (replaced n cs,
      [Send 2 (Init ''player_1'' GAME_WIDTH GAME_HEIGHT PLAYER_RADIUS COIN_RADIUS),
       Send 2 GameStart])"
  by (auto simp: alone_def replaced_def handle_client_connect_def Let_def str_nat_small
        insert_commute)

text \<open>
  Claim C2, on the history connect, connect, disconnect of the first, connect. The id
  of the new player is made from the number of players in the store, which is 1 again:
  the third connection is given \<open>player_1\<close>, the id of the player of the second
  connection, whose record is overwritten. Two connections then share one player.
\<close>

theorem connect_reuses_player_id:
  "\<exists>s s' out.
     run [ev_c0, ev_c1, Disconnect 0] (init_server 0) = Inr s \<and>
     handle_client_connect 2 (300, 300) (50, 50, 200) 13 (\<lambda>i. (60, 60)) s = (s', out) \<and>
     connected_clients s = {1} \<and> player_id_map s 1 = Some ''player_1'' \<and>
     players s =
       [(''player_1'', \<lparr>p_id = ''player_1'', p_x = 200, p_y = 200, p_color = (50, 200, 50),
                         p_score = 0, p_input_x = 0, p_input_y = 0\<rparr>)] \<and>
     out = [Send 2 (Init ''player_1'' GAME_WIDTH GAME_HEIGHT PLAYER_RADIUS COIN_RADIUS),
            Send 2 GameStart] \<and>
     connected_clients s' = {1, 2} \<and>
     player_id_map s' 1 = Some ''player_1'' \<and> player_id_map s' 2 = Some ''player_1'' \<and>
     players s' =
       [(''player_1'', \<lparr>p_id = ''player_1'', p_x = 300, p_y = 300, p_color = (50, 50, 200),
                         p_score = 0, p_input_x = 0, p_input_y = 0\<rparr>)]"
proof -
  have "run ([ev_c0, ev_c1] @ [Disconnect 0]) (init_server 0) = run [Disconnect 0] after_two"
    by (simp only: run_app run_two sum.case)
  also have "\<dots> = Inr (alone 0 (coins after_two))"
    by (simp only: run.simps step_disconnect_two sum.case)
  finally have "run [ev_c0, ev_c1, Disconnect 0] (init_server 0)
                  = Inr (alone 0 (coins after_two))" by simp
  moreover note connect_third [of 0 "coins after_two"]
  ultimately show ?thesis
    by (intro exI [of _ "alone 0 (coins after_two)"]
          exI [of _ "replaced 0 (coins after_two)"] exI conjI)
      (simp_all add: alone_def replaced_def)
qed

text \<open>
  Claim C10, on the same history with a pass of the tick loop in which \<open>player_1\<close>
  collects five coins: accepting the third connection sets the score stored under
  \<open>player_1\<close>, the player of the second connection, from 5 back to 0.
\<close>

theorem connect_resets_score:
  "\<exists>s s'.
     run [ev_c0, ev_c1, Tick 1 (20, 20) 1, Disconnect 0] (init_server 0) = Inr s \<and>
     step ev_c2 s = Inr s' \<and>
     connected_clients s = {1} \<and> player_id_map s 1 = Some ''player_1'' \<and>
     map (\<lambda>kp. (fst kp, p_score (snd kp))) (players s) = [(''player_1'', 5)] \<and>
     connected_clients s' = {1, 2} \<and> player_id_map s' 1 = Some ''player_1'' \<and>
     map (\<lambda>kp. (fst kp, p_score (snd kp))) (players s') = [(''player_1'', 0)]"
proof -
  have "run ([ev_c0, ev_c1] @ [Tick 1 (20, 20) 1, Disconnect 0]) (init_server 0)
          = run [Tick 1 (20, 20) 1, Disconnect 0] after_two"
    by (simp only: run_app run_two sum.case)
  also have "\<dots> = Inr (alone 5 [])"
    by (simp only: run.simps step_tick step_disconnect_tick sum.case)
  finally have "run [ev_c0, ev_c1, Tick 1 (20, 20) 1, Disconnect 0] (init_server 0)
                  = Inr (alone 5 [])" by simp
  moreover have "step ev_c2 (alone 5 []) = Inr (replaced 5 [])"
    by (simp add: ev_c2_def connect_third)
  ultimately show ?thesis
    by (intro exI [of _ "alone 5 []"] exI [of _ "replaced 5 []"] conjI)
      (simp_all add: alone_def replaced_def)
qed

lemma pass_time_when_broadcasting:
  "game_started s \<Longrightarrow> connected_clients s \<noteq> {} \<Longrightarrow>
     game_loop_pass_time s = SIMULATION_LATENCY + TICK_DELTA"
proof -
  assume a: "game_started s" "connected_clients s \<noteq> {}"
  have "delayed_send_time ` connected_clients s = {SIMULATION_LATENCY}"
    using a(2) by (auto simp: delayed_send_time_def)
  with a show ?thesis
    by (simp add: game_loop_pass_time_def broadcast_state_time_def)
qed

text \<open>
  Claim C1, in the state after two connections: a pass of the tick loop awaits the
  gathered delayed sends, so it lasts \<open>SIMULATION_LATENCY + TICK_DELTA\<close>, 25 tick
  periods, and not one tick period; scheduling an input does not suspend its handler.
\<close>

theorem tick_loop_waits_for_broadcast:
  "\<exists>s. run [ev_c0, ev_c1] (init_server 0) = Inr s \<and>
        game_started s \<and> connected_clients s = {0, 1} \<and>
        game_loop_pass_time s = SIMULATION_LATENCY + TICK_DELTA \<and>
        game_loop_pass_time s = 25 * TICK_DELTA \<and>
        TICK_DELTA < game_loop_pass_time s \<and>
        schedule_input_time = 0"
proof -
  have g: "game_started after_two" and c: "connected_clients after_two = {0, 1}"
    by (simp_all add: after_two_def)
  then have "game_loop_pass_time after_two = SIMULATION_LATENCY + TICK_DELTA"
    by (intro pass_time_when_broadcasting) simp_all
  with run_two g c show ?thesis
    by (intro exI [of _ after_two])
      (simp add: SIMULATION_LATENCY_def TICK_DELTA_def TICK_RATE_def schedule_input_time_def)
qed

theorem session_gating_witness:
  "\<exists>s1 s2 s3 out2 out3.
     run [ev_c0] (init_server 0) = Inr s1 \<and> \<not> game_started s1 \<and>
     handle_client_connect 1 (200, 200) (50, 200, 50) 11 (\<lambda>i. (200, 200)) s1 = (s2, out2) \<and>
     game_started s2 \<and> length (players s1) = 1 \<and> length (players s2) = 2 \<and>
     map fst (coins s2) = [''coin_0'', ''coin_1'', ''coin_2'', ''coin_3'', ''coin_4''] \<and>
     out2 = [Send 1 (Init ''player_1'' GAME_WIDTH GAME_HEIGHT PLAYER_RADIUS COIN_RADIUS),
             SendAll {0, 1} GameStart] \<and>
     run [ev_c0, ev_c1] (init_server 0) = Inr s2 \<and>
     handle_client_connect 2 (300, 300) (50, 50, 200) 13 (\<lambda>i. (60, 60)) s2 = (s3, out3) \<and>
     game_started s3 \<and> length (players s3) = 3 \<and> coins s3 = coins s2 \<and>
     out3 = [Send 2 (Init ''player_2'' GAME_WIDTH GAME_HEIGHT PLAYER_RADIUS COIN_RADIUS),
             Send 2 GameStart]"
proof -
  define s1 where "s1 = fst (handle_client_connect 0 (100, 100) (200, 50, 50) 10 (\<lambda>i. (200, 200)) (init_server 0))"
  have r1: "run [ev_c0] (init_server 0) = Inr s1" by (simp add: s1_def ev_c0_def)
  have n1: "\<not> game_started s1" and l1: "length (players s1) = 1"
    and cl1: "connected_clients s1 = {0}"
    by (simp_all add: s1_def eval_connect)
  have r2: "run [ev_c0, ev_c1] (init_server 0) = Inr after_two" by (rule run_two)
  have st2: "fst (handle_client_connect 1 (200, 200) (50, 200, 50) 11 (\<lambda>i. (200, 200)) s1) = after_two"
    using r2 by (simp add: s1_def ev_c0_def ev_c1_def)
  from session_gating [OF r1, of 1 "(200, 200)" "(50, 200, 50)" 11 "\<lambda>i. (200, 200)"]
  obtain s2 out2 i2 where
    h2: "handle_client_connect 1 (200, 200) (50, 200, 50) 11 (\<lambda>i. (200, 200)) s1 = (s2, out2)"
    and t2: "\<not> game_started s1 \<and> game_started s2 \<longrightarrow>
              length (players s1) = 1 \<and> coins s1 = [] \<and>
              map fst (coins s2) = [''coin_0'', ''coin_1'', ''coin_2'', ''coin_3'', ''coin_4''] \<and>
              start_time s2 = Some 11 \<and> 1 \<in> connected_clients s2 \<and>
              out2 = [Send 1 i2, SendAll (connected_clients s2) GameStart]"
    and i2: "i2 = Init (''player_'' @ str_nat (length (players s1)))
                    GAME_WIDTH GAME_HEIGHT PLAYER_RADIUS COIN_RADIUS"
    by (elim exE conjE) (rule that, assumption+)
  from h2 st2 have e2: "s2 = after_two" by simp
  then have g2: "game_started s2" and l2: "length (players s2) = 2"
    and cl2: "connected_clients s2 = {0, 1}"
    by (simp_all add: after_two_def)
  from t2 n1 g2 l1 cl2 i2
  have c2: "map fst (coins s2) = [''coin_0'', ''coin_1'', ''coin_2'', ''coin_3'', ''coin_4'']"
    and o2: "out2 = [Send 1 (Init ''player_1'' GAME_WIDTH GAME_HEIGHT PLAYER_RADIUS COIN_RADIUS),
                     SendAll {0, 1} GameStart]"
    by (simp_all add: str_nat_small)
  from session_gating [OF r2, of 2 "(300, 300)" "(50, 50, 200)" 13 "\<lambda>i. (60, 60)"]
  obtain s3 out3 i3 where
    h3: "handle_client_connect 2 (300, 300) (50, 50, 200) 13 (\<lambda>i. (60, 60)) after_two = (s3, out3)"
    and a3: "game_started s3 \<longleftrightarrow> game_started after_two \<or> length (players s3) = 2"
    and t3: "game_started after_two \<longrightarrow>
              coins s3 = coins after_two \<and> coin_counter s3 = coin_counter after_two \<and>
              start_time s3 = start_time after_two \<and>
              out3 = [Send 2 i3, Send 2 GameStart]"
    and i3: "i3 = Init (''player_'' @ str_nat (length (players after_two)))
                    GAME_WIDTH GAME_HEIGHT PLAYER_RADIUS COIN_RADIUS"
    by (elim exE conjE) (rule that, assumption+)
  from a3 t3 e2 g2 l2 i3
  have g3: "game_started s3" and c3: "coins s3 = coins s2"
    and o3: "out3 = [Send 2 (Init ''player_2'' GAME_WIDTH GAME_HEIGHT PLAYER_RADIUS COIN_RADIUS),
                     Send 2 GameStart]"
    by (simp_all add: str_nat_small)
  from h3 have l3: "length (players s3) = 3"
    by (auto simp: after_two_def handle_client_connect_def Let_def str_nat_small)
  from h2 e2 have h2': "handle_client_connect 1 (200, 200) (50, 200, 50) 11 (\<lambda>i. (200, 200)) s1
                          = (after_two, out2)" by simp
  from g2 l2 c2 c3 e2 have f2: "game_started after_two" "length (players after_two) = 2"
    "map fst (coins after_two) = [''coin_0'', ''coin_1'', ''coin_2'', ''coin_3'', ''coin_4'']"
    "coins s3 = coins after_two"
    by simp_all
  show ?thesis
    by (intro exI [of _ s1] exI [of _ after_two] exI [of _ s3] exI [of _ out2] exI [of _ out3]
          conjI r1 n1 h2' f2 l1 o2 r2 h3 g3 l3 o3)
qed

end
